theory Spec2Isabelle
  imports Main "HOL-Library.Multiset" "HOL-Library.Sublist" "HOL-Library.Monad_Syntax"
begin

section \<open>RRT Architect: the puzzle generator and the adaptive session loop\<close>

text \<open>
  A shallow embedding of \<^verbatim>\<open>src/App.tsx\<close>: the helper functions
  (\<^verbatim>\<open>shuffleArray\<close>, \<^verbatim>\<open>invertSpatial\<close>, \<^verbatim>\<open>getDistinctRandomIndices\<close>), the
  cipher key generator, \<^verbatim>\<open>generateLogic\<close> with its four frames, and the adaptive part
  of \<^verbatim>\<open>handleAnswer\<close>.

  JavaScript numbers are modelled as \<open>int\<close> (coordinates, counters) or \<open>nat\<close> (array
  indices and loop bounds); every value the code computes stays a small integer.
  Randomness is made explicit: each call of \<^verbatim>\<open>Math.random()\<close> is replaced by its
  outcome, passed in as an argument. A comparison \<^verbatim>\<open>Math.random() > 0.5\<close> is a \<open>bool\<close>,
  an index \<^verbatim>\<open>Math.floor(Math.random() * n)\<close> is a \<open>nat\<close> that must be below \<open>n\<close>.
  Functions return \<open>None\<close> when the draws they are given are no outcome of the code
  (an index not below its bound, a rejection loop whose draws run out).
\<close>

subsection \<open>Constants\<close>

definition CIPHER_WORDS :: "string list" where
  "CIPHER_WORDS =
    [''ZAX'', ''JOP'', ''KIV'', ''LUZ'', ''MEC'', ''VEX'', ''QOD'', ''WIB'', ''HAF'', ''GUK'',
     ''YIN'', ''BEX'', ''DUB'', ''ROZ'', ''NIX'', ''POK'', ''VOM'', ''JEX'', ''KAZ'', ''QUZ'',
     ''YEP'', ''WUX'', ''FIP'', ''GOZ'']"

text \<open>The local constant \<^verbatim>\<open>relations\<close> of \<^verbatim>\<open>generateCipherKey\<close>.\<close>

definition relations :: "string list" where
  "relations =
    [''GREATER'', ''LESS'', ''SAME'', ''DIFFERENT'', ''CONTAINS'', ''INSIDE'',
     ''NORTH'', ''SOUTH'', ''EAST'', ''WEST'', ''ABOVE'', ''BELOW'',
     ''LEFT'', ''RIGHT'', ''FRONT'', ''BEHIND'', ''START'', ''FACE'', ''WALK'', ''TURN'']"

text \<open>\<^verbatim>\<open>COMMON.accent\<close>.\<close>

definition accent :: string where
  "accent = ''#06b6d4''"

subsection \<open>Random indices\<close>

text \<open>
  \<^verbatim>\<open>Math.floor(Math.random() * n)\<close> with outcome \<open>d\<close>: \<^verbatim>\<open>Math.random()\<close> lies in
  \<open>[0, 1)\<close>, so only \<open>d < n\<close> occurs.
\<close>

definition randInt :: "nat \<Rightarrow> nat \<Rightarrow> nat option" where
  "randInt n d = (if d < n then Some d else None)"

subsection \<open>shuffleArray\<close>

text \<open>
  \<^verbatim>\<open>[...array].sort(() => Math.random() - 0.5)\<close> sorts a copy with a comparator that
  answers at random. Whatever the engine's sorting algorithm does with it, the result
  holds the elements of the copy in some order: the outcome is the list \<open>p\<close> of the
  source positions, in the order in which they appear in the result.
\<close>

definition isPermutation :: "nat \<Rightarrow> nat list \<Rightarrow> bool" where
  "isPermutation n p = (length p = n \<and> distinct p \<and> list_all (\<lambda>i. i < n) p)"

definition shuffleArray :: "nat list \<Rightarrow> 'a list \<Rightarrow> 'a list option" where
  "shuffleArray p array =
     (if isPermutation (length array) p then Some (map (\<lambda>i. array ! i) p) else None)"

subsection \<open>invertSpatial\<close>

text \<open>
  \<^verbatim>\<open>String.prototype.includes\<close>, \<^verbatim>\<open>split\<close> with a non-empty separator and
  \<^verbatim>\<open>Array.prototype.join\<close>, on strings as character lists.
\<close>

fun js_includes :: "string \<Rightarrow> string \<Rightarrow> bool" where
  "js_includes sep [] = (sep = [])"
| "js_includes sep (c # cs) = (prefix sep (c # cs) \<or> js_includes sep cs)"

fun js_split_acc :: "string \<Rightarrow> string \<Rightarrow> nat \<Rightarrow> string \<Rightarrow> string list" where
  "js_split_acc sep acc skip [] = [rev acc]"
| "js_split_acc sep acc (Suc k) (c # cs) = js_split_acc sep acc k cs"
| "js_split_acc sep acc 0 (c # cs) =
     (if sep \<noteq> [] \<and> prefix sep (c # cs)
      then rev acc # js_split_acc sep [] (length sep - 1) cs
      else js_split_acc sep (c # acc) 0 cs)"

definition js_split :: "string \<Rightarrow> string \<Rightarrow> string list" where
  "js_split sep s = js_split_acc sep [] 0 s"

fun js_join :: "string \<Rightarrow> string list \<Rightarrow> string" where
  "js_join sep [] = []"
| "js_join sep [p] = p"
| "js_join sep (p # q # ps) = p @ sep @ js_join sep (q # ps)"

text \<open>The object literal \<^verbatim>\<open>map\<close> of \<^verbatim>\<open>invertSpatial\<close>, in the order of the source.\<close>

definition invertTable :: "(string \<times> string) list" where
  "invertTable =
    [(''NORTH'', ''SOUTH''), (''SOUTH'', ''NORTH''),
     (''EAST'', ''WEST''), (''WEST'', ''EAST''),
     (''ABOVE'', ''BELOW''), (''BELOW'', ''ABOVE''),
     (''LEFT'', ''RIGHT''), (''RIGHT'', ''LEFT''),
     (''FRONT'', ''BEHIND''), (''BEHIND'', ''FRONT''),
     (''SAME LOCATION'', ''SAME LOCATION'')]"

text \<open>
  \<^verbatim>\<open>map[p] || p\<close>: the entry when there is one and it is a non-empty string, else
  \<open>p\<close> itself. (Keys inherited from \<^verbatim>\<open>Object.prototype\<close> are left out.)
\<close>

definition invertWord :: "string \<Rightarrow> string" where
  "invertWord p = (case map_of invertTable p of
                     Some v \<Rightarrow> (if v \<noteq> [] then v else p)
                   | None \<Rightarrow> p)"

definition invertSpatial :: "string \<Rightarrow> string" where
  "invertSpatial rel =
     (if js_includes '' and '' rel
      then js_join '' and '' (map invertWord (js_split '' and '' rel))
      else invertWord rel)"

text \<open>The ten direction keywords of that table (all its keys but SAME LOCATION).\<close>

definition isDirection :: "string \<Rightarrow> bool" where
  "isDirection d = (d \<in> {''NORTH'', ''SOUTH'', ''EAST'', ''WEST'', ''ABOVE'', ''BELOW'',
      ''LEFT'', ''RIGHT'', ''FRONT'', ''BEHIND''})"

definition nospace :: "string \<Rightarrow> bool" where
  "nospace p = (CHR '' '' \<notin> set p)"

subsection \<open>getDistinctRandomIndices\<close>

text \<open>
  \<^verbatim>\<open>let b = draw; while (a === b) b = draw\<close>: the list holds the first draw of \<open>b\<close>
  and the draws of the loop.
\<close>

fun redrawDistinct :: "nat \<Rightarrow> nat \<Rightarrow> nat list \<Rightarrow> nat option" where
  "redrawDistinct cnt a [] = None"
| "redrawDistinct cnt a (b # bs) =
     (if b < cnt then (if a = b then redrawDistinct cnt a bs else Some b) else None)"

definition getDistinctRandomIndices :: "nat \<Rightarrow> nat list \<Rightarrow> (nat \<times> nat) option" where
  "getDistinctRandomIndices cnt ds =
     (case ds of
        [] \<Rightarrow> None
      | a0 # bs \<Rightarrow> do { a \<leftarrow> randInt cnt a0; b \<leftarrow> redrawDistinct cnt a bs; Some (a, b) })"

subsection \<open>Settings, draws and results\<close>

text \<open>The fields of \<^verbatim>\<open>GameSettings\<close> that the modelled functions read.\<close>

record GameSettings =
  numPremises :: int
  autoProgress :: bool
  enableDeictic :: bool
  enableMovement :: bool
  enableCipher :: bool

datatype RftMode = LINEAR | SPATIAL_2D | SPATIAL_3D | HIERARCHY | DISTINCTION

text \<open>
  One Movement instruction: \<^verbatim>\<open>Math.random() < 0.5\<close> walks, otherwise
  \<^verbatim>\<open>Math.random() > 0.5\<close> turns right and else left.
\<close>

datatype MoveDraw = Walk | TurnRight | TurnLeft

text \<open>
  The outcomes of all random draws of one call of \<^verbatim>\<open>generateLogic\<close>. A draw inside a
  counted loop is a function of the loop index; the draws of a rejection loop are a list.
  \<open>symbolDraw i\<close> is the symbol that \<^verbatim>\<open>generateSymbols\<close> pushes in its iteration \<open>i\<close>.
\<close>

record Draws =
  symbolDraw :: "nat \<Rightarrow> string"
  linkCoin :: "nat \<Rightarrow> bool"
  valueCoin :: bool
  indexDraws :: "nat list"
  queryCoin :: bool
  dirDraw :: "nat \<Rightarrow> nat"
  typeDraw :: nat
  facingDraw :: nat
  partDraw :: nat
  fakeDraws :: "nat list"
  startDraw :: nat
  headingDraw :: nat
  movesDraw :: nat
  moveDraw :: "nat \<Rightarrow> MoveDraw"
  targetDraws :: "nat list"
  shuffleDraw :: "nat list"

text \<open>
  The local variables \<^verbatim>\<open>newPremises\<close>, \<^verbatim>\<open>newQuestion\<close>, \<^verbatim>\<open>newAnswer\<close> and
  \<^verbatim>\<open>modifiers\<close> at the end of a branch, and the object that \<^verbatim>\<open>generateLogic\<close> returns
  (without \<^verbatim>\<open>visualMap\<close> and \<^verbatim>\<open>usedCipherKeys\<close>, which feed the display only;
  its field \<^verbatim>\<open>premises\<close> is \<open>roundPremises\<close> here).
\<close>

record RawRound =
  newPremises :: "string list"
  newQuestion :: string
  newAnswer :: bool
  newModifiers :: "string list"

record LogicData =
  roundPremises :: "string list"
  question :: string
  answer :: bool
  modifiers :: "string list"

subsection \<open>Strings: replace, trim, getTerm, createPremise\<close>

text \<open>\<^verbatim>\<open>String.prototype.replace\<close> with a string pattern: the first occurrence only.\<close>

fun js_replace :: "string \<Rightarrow> string \<Rightarrow> string \<Rightarrow> string" where
  "js_replace pat rep [] = (if pat = [] then rep else [])"
| "js_replace pat rep (c # cs) =
     (if prefix pat (c # cs) then rep @ drop (length pat) (c # cs)
      else c # js_replace pat rep cs)"

text \<open>
  \<^verbatim>\<open>String.prototype.trim\<close> on the ASCII white space and line terminators (the code
  trims relation keywords only).
\<close>

definition isWhite :: "char \<Rightarrow> bool" where
  "isWhite c = (c = CHR '' '' \<or> c = CHR 0x09 \<or> c = CHR 0x0A \<or> c = CHR 0x0B \<or>
                c = CHR 0x0C \<or> c = CHR 0x0D)"

definition js_trim :: "string \<Rightarrow> string" where
  "js_trim s = rev (dropWhile isWhite (rev (dropWhile isWhite s)))"

definition bold :: "string \<Rightarrow> string" where
  "bold w = ''<b style='' @ [CHR 0x22] @ ''color: '' @ accent @ [CHR 0x22] @ ''>'' @ w @ ''</b>''"

text \<open>\<^verbatim>\<open>settings.enableCipher && cipherMap[key]\<close>: the entry exists and is not empty.\<close>

definition cipherOf :: "GameSettings \<Rightarrow> (string \<rightharpoonup> string) \<Rightarrow> string \<Rightarrow> string option" where
  "cipherOf st cipherMap key =
     (case cipherMap key of
        Some w \<Rightarrow> (if enableCipher st \<and> w \<noteq> [] then Some w else None)
      | None \<Rightarrow> None)"

definition getTerm :: "GameSettings \<Rightarrow> (string \<rightharpoonup> string) \<Rightarrow> string \<Rightarrow> string" where
  "getTerm st cipherMap key =
     (case cipherOf st cipherMap key of Some w \<Rightarrow> bold w | None \<Rightarrow> key)"

definition createPremise ::
  "GameSettings \<Rightarrow> (string \<rightharpoonup> string) \<Rightarrow> string \<Rightarrow> string \<Rightarrow> string \<Rightarrow> string" where
  "createPremise st cipherMap a rawRel b =
     (let cleanRel = js_trim (js_replace ''the '' [] (js_replace '' of'' []
                       (js_replace '' than'' [] (js_replace ''is '' [] rawRel))))
      in case cipherOf st cipherMap cleanRel of
           Some w \<Rightarrow> a @ '' '' @ bold w @ '' '' @ b
         | None \<Rightarrow> a @ '' '' @ rawRel @ '' '' @ b)"

definition generateSymbols :: "nat \<Rightarrow> (nat \<Rightarrow> string) \<Rightarrow> string list" where
  "generateSymbols cnt symbolOf = map symbolOf [0..<cnt]"

subsection \<open>Rotation into the local frame and bearing classification\<close>

text \<open>
  The Deictic branch of \<^verbatim>\<open>generateLogic\<close> (facingDir 0 = N, 1 = E, 2 = S, 3 = W);
  \<open>localX\<close> and \<open>localY\<close> start at 0 and keep it when no branch applies.
\<close>

definition deicticLocal :: "nat \<Rightarrow> int \<Rightarrow> int \<Rightarrow> int \<times> int" where
  "deicticLocal facingDir diffX diffY =
     (if facingDir = 0 then (diffX, diffY)
      else if facingDir = 1 then (- diffY, diffX)
      else if facingDir = 2 then (- diffX, - diffY)
      else if facingDir = 3 then (diffY, - diffX)
      else (0, 0))"

text \<open>The Movement branch, for the walker's final heading.\<close>

definition movementLocal :: "nat \<Rightarrow> int \<Rightarrow> int \<Rightarrow> int \<times> int" where
  "movementLocal heading relX relY =
     (if heading = 0 then (relX, relY)
      else if heading = 1 then (relY, - relX)
      else if heading = 2 then (- relX, - relY)
      else if heading = 3 then (- relY, relX)
      else (0, 0))"

text \<open>
  The classification both branches repeat: the relation starts as the empty string and
  becomes SAME LOCATION when no case applied.
\<close>

definition classifyLocal :: "int \<times> int \<Rightarrow> string" where
  "classifyLocal l =
     (case l of (localX, localY) \<Rightarrow>
        if localY > 0 \<and> \<bar>localX\<bar> \<le> localY then ''FRONT''
        else if localY < 0 \<and> \<bar>localX\<bar> \<le> \<bar>localY\<bar> then ''BEHIND''
        else if localX > 0 then ''RIGHT''
        else if localX < 0 then ''LEFT''
        else ''SAME LOCATION'')"

subsection \<open>generateCipherKey\<close>

text \<open>
  \<^verbatim>\<open>relations.forEach((rel, i) => { newMap[rel] = shuffledWords[i % n] })\<close>, on the
  shuffled copy of \<^verbatim>\<open>CIPHER_WORDS\<close>.
\<close>

definition assignWords ::
  "string list \<Rightarrow> (string \<rightharpoonup> string) \<Rightarrow> (string \<times> nat) list \<Rightarrow> (string \<rightharpoonup> string)" where
  "assignWords shuffledWords newMap ris =
     fold (\<lambda>(rel, i) m. m(rel \<mapsto> shuffledWords ! (i mod length shuffledWords))) ris newMap"

definition generateCipherKey :: "nat list \<Rightarrow> (string \<rightharpoonup> string) option" where
  "generateCipherKey p =
     do { shuffledWords \<leftarrow> shuffleArray p CIPHER_WORDS;
          Some (assignWords shuffledWords Map.empty (zip relations [0..<length relations])) }"

subsection \<open>generateLogic: Linear, Distinction, Hierarchy\<close>

definition linearPremises ::
  "GameSettings \<Rightarrow> (string \<rightharpoonup> string) \<Rightarrow> string list \<Rightarrow> (nat \<Rightarrow> bool) \<Rightarrow> nat \<Rightarrow> string list" where
  "linearPremises st cm items coin num =
     map (\<lambda>i. createPremise st cm (items ! i)
                 (''is '' @ (if coin i then ''GREATER'' else ''LESS'') @ '' than'')
                 (items ! (i + 1))) [0..<num]"

definition genLinear ::
  "GameSettings \<Rightarrow> nat \<Rightarrow> (string \<rightharpoonup> string) \<Rightarrow> bool \<Rightarrow> Draws \<Rightarrow> RawRound option" where
  "genLinear st num cm isNight d =
     (let items = generateSymbols (num + 1) (symbolDraw d) in
      do { (idxA, idxB) \<leftarrow> getDistinctRandomIndices (num + 1) (indexDraws d);
           let qType = (if queryCoin d then ''GREATER'' else ''LESS'');
           let qText = getTerm st cm qType;
           let ans = (if qType = ''GREATER'' then idxA < idxB else idxA > idxB);
           Some \<lparr> newPremises = linearPremises st cm items (linkCoin d) num,
                  newQuestion = ''Is '' @ items ! idxA @ '' '' @ qText @ '' '' @
                     (if enableCipher st then [] else ''than'') @ '' '' @ items ! idxB @ ''?'',
                  newAnswer = (if isNight then \<not> ans else ans),
                  newModifiers = [] \<rparr> })"

text \<open>
  \<^verbatim>\<open>values\<close> after \<open>n\<close> iterations of the Distinction loop: it starts as the one-element
  array with the first draw, and iteration \<open>i\<close> pushes \<^verbatim>\<open>isSame ? values[i] : 1 - values[i]\<close>.
\<close>

fun distinctionValues :: "bool \<Rightarrow> (nat \<Rightarrow> bool) \<Rightarrow> nat \<Rightarrow> int list" where
  "distinctionValues v0 isSame 0 = [if v0 then 1 else 0]"
| "distinctionValues v0 isSame (Suc i) =
     (let vals = distinctionValues v0 isSame i
      in vals @ [if isSame i then vals ! i else 1 - vals ! i])"

definition distinctionPremises ::
  "GameSettings \<Rightarrow> (string \<rightharpoonup> string) \<Rightarrow> string list \<Rightarrow> (nat \<Rightarrow> bool) \<Rightarrow> nat \<Rightarrow> string list" where
  "distinctionPremises st cm items isSame num =
     map (\<lambda>i. createPremise st cm (items ! i)
                 (if isSame i then ''SAME'' else ''DIFFERENT'') (items ! (i + 1))) [0..<num]"

definition genDistinction ::
  "GameSettings \<Rightarrow> nat \<Rightarrow> (string \<rightharpoonup> string) \<Rightarrow> bool \<Rightarrow> Draws \<Rightarrow> RawRound option" where
  "genDistinction st num cm isNight d =
     (let items = generateSymbols (num + 1) (symbolDraw d);
          vals = distinctionValues (valueCoin d) (linkCoin d) num in
      do { (idxA, idxB) \<leftarrow> getDistinctRandomIndices (num + 1) (indexDraws d);
           let qType = (if queryCoin d then ''SAME'' else ''DIFFERENT'');
           let qText0 = getTerm st cm qType;
           let qText = (if \<not> enableCipher st
                        then (if qType = ''SAME'' then ''the SAME as'' else ''DIFFERENT from'')
                        else qText0);
           let ans = (if qType = ''SAME'' then vals ! idxA = vals ! idxB
                      else vals ! idxA \<noteq> vals ! idxB);
           Some \<lparr> newPremises = distinctionPremises st cm items (linkCoin d) num,
                  newQuestion = ''Is '' @ items ! idxA @ '' '' @ qText @ '' '' @ items ! idxB @ ''?'',
                  newAnswer = (if isNight then \<not> ans else ans),
                  newModifiers = [] \<rparr> })"

definition hierarchyPremises ::
  "GameSettings \<Rightarrow> (string \<rightharpoonup> string) \<Rightarrow> string list \<Rightarrow> nat \<Rightarrow> string list" where
  "hierarchyPremises st cm items num =
     map (\<lambda>i. createPremise st cm (items ! i) ''CONTAINS'' (items ! (i + 1))) [0..<num]"

definition genHierarchy ::
  "GameSettings \<Rightarrow> nat \<Rightarrow> (string \<rightharpoonup> string) \<Rightarrow> bool \<Rightarrow> Draws \<Rightarrow> RawRound option" where
  "genHierarchy st num cm isNight d =
     (let items = generateSymbols (num + 1) (symbolDraw d) in
      do { (idxA, idxB) \<leftarrow> getDistinctRandomIndices (num + 1) (indexDraws d);
           let (q, ans) =
             (if queryCoin d
              then (''Is '' @ items ! idxA @ '' '' @ getTerm st cm ''INSIDE'' @ '' '' @
                      items ! idxB @ ''?'', idxA > idxB)
              else (''Does '' @ items ! idxA @ '' '' @ getTerm st cm ''CONTAINS'' @ '' '' @
                      items ! idxB @ ''?'', idxA < idxB));
           Some \<lparr> newPremises = hierarchyPremises st cm items num,
                  newQuestion = q,
                  newAnswer = (if isNight then \<not> ans else ans),
                  newModifiers = [] \<rparr> })"

subsection \<open>generateLogic: Spatial\<close>

text \<open>
  An entry of \<^verbatim>\<open>positions\<close>; the fields \<^verbatim>\<open>x\<close>, \<^verbatim>\<open>y\<close>, \<^verbatim>\<open>z\<close> are \<open>px\<close>, \<open>py\<close>,
  \<open>pz\<close> here.
\<close>

datatype Position = Position (px: int) (py: int) (pz: int)

text \<open>The \<^verbatim>\<open>switch (dir)\<close> of the walk: the step and its text.\<close>

definition stepOf :: "nat \<Rightarrow> (int \<times> int \<times> int) \<times> string" where
  "stepOf dir =
     (if dir = 0 then ((0, 1, 0), ''NORTH'')
      else if dir = 1 then ((0, -1, 0), ''SOUTH'')
      else if dir = 2 then ((1, 0, 0), ''EAST'')
      else if dir = 3 then ((-1, 0, 0), ''WEST'')
      else if dir = 4 then ((0, 0, 1), ''ABOVE'')
      else if dir = 5 then ((0, 0, -1), ''BELOW'')
      else ((0, 0, 0), []))"

text \<open>
  \<^verbatim>\<open>positions\<close> after \<open>n\<close> iterations of the walk; \<^verbatim>\<open>cx\<close>, \<^verbatim>\<open>cy\<close>, \<^verbatim>\<open>cz\<close> always
  equal the entry pushed last.
\<close>

fun spatialPositions :: "(nat \<Rightarrow> nat) \<Rightarrow> nat \<Rightarrow> Position list" where
  "spatialPositions dir 0 = [Position 0 0 0]"
| "spatialPositions dir (Suc i) =
     (let positions = spatialPositions dir i;
          c = last positions;
          (dx, dy, dz) = fst (stepOf (dir i))
      in positions @ [Position (px c + dx) (py c + dy) (pz c + dz)])"

definition spatialPremises ::
  "GameSettings \<Rightarrow> (string \<rightharpoonup> string) \<Rightarrow> string list \<Rightarrow> (nat \<Rightarrow> nat) \<Rightarrow> nat \<Rightarrow> string list" where
  "spatialPremises st cm items dir num =
     map (\<lambda>i. createPremise st cm (items ! (i + 1)) (snd (stepOf (dir i))) (items ! i)) [0..<num]"

definition availableTypes :: "GameSettings \<Rightarrow> bool \<Rightarrow> string list" where
  "availableTypes st is3D =
     (let types = [''STANDARD''] @ (if enableDeictic st then [''DEICTIC''] else []) @
                  (if enableMovement st \<and> \<not> is3D then [''MOVEMENT''] else [])
      in if length types > 1 then filter (\<lambda>t. t \<noteq> ''STANDARD'') types else types)"

definition selectedType :: "GameSettings \<Rightarrow> bool \<Rightarrow> nat \<Rightarrow> string option" where
  "selectedType st is3D draw =
     do { i \<leftarrow> randInt (length (availableTypes st is3D)) draw;
          Some (availableTypes st is3D ! i) }"

text \<open>
  \<^verbatim>\<open>let fakeRaw = dirs[draw]; while (rejected(fakeRaw)) fakeRaw = dirs[draw]\<close>: the list
  holds the first draw and the draws of the loop.
\<close>

fun pickFake :: "string list \<Rightarrow> (string \<Rightarrow> bool) \<Rightarrow> nat list \<Rightarrow> string option" where
  "pickFake dirs rejected [] = None"
| "pickFake dirs rejected (f # fs) =
     (if f < length dirs
      then (if rejected (dirs ! f) then pickFake dirs rejected fs else Some (dirs ! f))
      else None)"

text \<open>
  What a spatial branch decides: the sub-mode, the true relation (the \<^verbatim>\<open>parts\<close> of
  Standard, the single bearing of Deictic and Movement), the relation word put into the
  question, the question and the answer.
\<close>

record SpatialQuery =
  subMode :: string
  trueRelation :: "string list"
  askedRelation :: string
  queryText :: string
  queryAnswer :: bool

text \<open>
  The query of Deictic and of Movement, which repeat the same code: with the coin ask the
  effective bearing, else a bearing of \<^verbatim>\<open>possibleDirs\<close> that is not the effective one.
\<close>

definition possibleDirs :: "string list" where
  "possibleDirs = [''FRONT'', ''BEHIND'', ''LEFT'', ''RIGHT'']"

definition bearingQuery :: "string \<Rightarrow> bool \<Rightarrow> nat list \<Rightarrow> (string \<times> bool) option" where
  "bearingQuery effectiveRel coin fakes =
     (if coin then Some (effectiveRel, True)
      else do { fakeRaw \<leftarrow> pickFake possibleDirs (\<lambda>f. f = effectiveRel) fakes;
                Some (fakeRaw, False) })"

definition headingNames :: "string list" where
  "headingNames = [''NORTH'', ''EAST'', ''SOUTH'', ''WEST'']"

definition genDeictic ::
  "GameSettings \<Rightarrow> (string \<rightharpoonup> string) \<Rightarrow> bool \<Rightarrow> string list \<Rightarrow> Position list \<Rightarrow> Draws
     \<Rightarrow> SpatialQuery option" where
  "genDeictic st cm isNight items positions d =
     do { (idxMe, idxTarget) \<leftarrow> getDistinctRandomIndices (length items) (indexDraws d);
          let diffX = px (positions ! idxTarget) - px (positions ! idxMe);
          let diffY = py (positions ! idxTarget) - py (positions ! idxMe);
          facingDir \<leftarrow> randInt 4 (facingDraw d);
          let myFacing = headingNames ! facingDir;
          let trueLocalRel = classifyLocal (deicticLocal facingDir diffX diffY);
          let effectiveRel = (if isNight then invertSpatial trueLocalRel else trueLocalRel);
          (asked, ans) \<leftarrow> bearingQuery effectiveRel (queryCoin d) (fakeDraws d);
          Some \<lparr> subMode = ''DEICTIC'', trueRelation = [trueLocalRel], askedRelation = asked,
                 queryText = ''You are at '' @ items ! idxMe @ '' facing '' @ getTerm st cm myFacing @
                    ''.<br/>Is '' @ items ! idxTarget @ '' to your '' @ getTerm st cm asked @ ''?'',
                 queryAnswer = ans \<rparr> }"

text \<open>The walker: \<^verbatim>\<open>curX\<close>, \<^verbatim>\<open>curY\<close> and \<^verbatim>\<open>heading\<close>.\<close>

datatype Walker = Walker (curX: int) (curY: int) (heading: nat)

definition moveStep :: "MoveDraw \<Rightarrow> Walker \<Rightarrow> Walker" where
  "moveStep m w =
     (case m of
        Walk \<Rightarrow> (if heading w = 0 then Walker (curX w) (curY w + 1) (heading w)
                 else if heading w = 1 then Walker (curX w + 1) (curY w) (heading w)
                 else if heading w = 2 then Walker (curX w) (curY w - 1) (heading w)
                 else if heading w = 3 then Walker (curX w - 1) (curY w) (heading w)
                 else w)
      | TurnRight \<Rightarrow> Walker (curX w) (curY w) ((heading w + 1) mod 4)
      | TurnLeft \<Rightarrow> Walker (curX w) (curY w) ((heading w + 3) mod 4))"

fun walkMoves :: "(nat \<Rightarrow> MoveDraw) \<Rightarrow> nat \<Rightarrow> Walker \<Rightarrow> Walker" where
  "walkMoves mv 0 w = w"
| "walkMoves mv (Suc m) w = moveStep (mv m) (walkMoves mv m w)"

definition moveText :: "GameSettings \<Rightarrow> (string \<rightharpoonup> string) \<Rightarrow> MoveDraw \<Rightarrow> string" where
  "moveText st cm m =
     (case m of
        Walk \<Rightarrow> getTerm st cm ''WALK'' @ '' 1.''
      | TurnRight \<Rightarrow> getTerm st cm ''TURN'' @ '' '' @ getTerm st cm ''RIGHT'' @ ''.''
      | TurnLeft \<Rightarrow> getTerm st cm ''TURN'' @ '' '' @ getTerm st cm ''LEFT'' @ ''.'')"

text \<open>
  The search for the target: after the first draw,
  \<^verbatim>\<open>while ((targetIdx === startIdx || coincident) && attempts < 50)\<close> draws again; the
  list holds the first draw and the draws of the loop.
\<close>

fun targetLoop ::
  "nat \<Rightarrow> Position list \<Rightarrow> nat \<Rightarrow> Walker \<Rightarrow> nat \<Rightarrow> nat \<Rightarrow> nat list \<Rightarrow> nat option" where
  "targetLoop n positions startIdx w attempts targetIdx [] =
     (if (targetIdx = startIdx \<or>
          (px (positions ! targetIdx) = curX w \<and> py (positions ! targetIdx) = curY w)) \<and>
         attempts < 50
      then None else Some targetIdx)"
| "targetLoop n positions startIdx w attempts targetIdx (t # ts) =
     (if (targetIdx = startIdx \<or>
          (px (positions ! targetIdx) = curX w \<and> py (positions ! targetIdx) = curY w)) \<and>
         attempts < 50
      then (if t < n then targetLoop n positions startIdx w (attempts + 1) t ts else None)
      else Some targetIdx)"

definition targetSearch ::
  "nat \<Rightarrow> Position list \<Rightarrow> nat \<Rightarrow> Walker \<Rightarrow> nat list \<Rightarrow> nat option" where
  "targetSearch n positions startIdx w draws =
     (case draws of
        [] \<Rightarrow> None
      | t0 # ts \<Rightarrow> do { target0 \<leftarrow> randInt n t0;
                        targetLoop n positions startIdx w 0 target0 ts })"

definition genMovement ::
  "GameSettings \<Rightarrow> (string \<rightharpoonup> string) \<Rightarrow> bool \<Rightarrow> string list \<Rightarrow> Position list \<Rightarrow> Draws
     \<Rightarrow> SpatialQuery option" where
  "genMovement st cm isNight items positions d =
     do { startIdx \<leftarrow> randInt (length items) (startDraw d);
          heading0 \<leftarrow> randInt 4 (headingDraw d);
          extra \<leftarrow> randInt 2 (movesDraw d);
          let moves = 2 + extra;
          let instructions =
                [getTerm st cm ''START'' @ '' '' @ items ! startIdx @ ''.'',
                 getTerm st cm ''FACE'' @ '' '' @ getTerm st cm (headingNames ! heading0) @ ''.''] @
                map (\<lambda>m. moveText st cm (moveDraw d m)) [0..<moves];
          let w = walkMoves (moveDraw d) moves
                    (Walker (px (positions ! startIdx)) (py (positions ! startIdx)) heading0);
          targetIdx \<leftarrow> targetSearch (length items) positions startIdx w (targetDraws d);
          let relX = px (positions ! targetIdx) - curX w;
          let relY = py (positions ! targetIdx) - curY w;
          let trueRel = classifyLocal (movementLocal (heading w) relX relY);
          let effectiveRel = (if isNight then invertSpatial trueRel else trueRel);
          (asked, ans) \<leftarrow> bearingQuery effectiveRel (queryCoin d) (fakeDraws d);
          Some \<lparr> subMode = ''MOVEMENT'', trueRelation = [trueRel], askedRelation = asked,
                 queryText = js_join '' '' instructions @ '' <br/><br/> Is '' @ items ! targetIdx @
                    '' to your '' @ getTerm st cm asked @ ''?'',
                 queryAnswer = ans \<rparr> }"

definition standardParts :: "bool \<Rightarrow> int \<Rightarrow> int \<Rightarrow> int \<Rightarrow> string list" where
  "standardParts is3D diffX diffY diffZ =
     (if is3D then (if diffZ > 0 then [''ABOVE''] else if diffZ < 0 then [''BELOW''] else []) else []) @
     (if diffY > 0 then [''NORTH''] else if diffY < 0 then [''SOUTH''] else []) @
     (if diffX > 0 then [''EAST''] else if diffX < 0 then [''WEST''] else [])"

definition allDirs :: "bool \<Rightarrow> string list" where
  "allDirs is3D =
     (if is3D then [''NORTH'', ''SOUTH'', ''EAST'', ''WEST'', ''ABOVE'', ''BELOW'']
      else [''NORTH'', ''SOUTH'', ''EAST'', ''WEST''])"

definition genStandard ::
  "GameSettings \<Rightarrow> (string \<rightharpoonup> string) \<Rightarrow> bool \<Rightarrow> bool \<Rightarrow> string list \<Rightarrow> Position list \<Rightarrow> Draws
     \<Rightarrow> SpatialQuery option" where
  "genStandard st cm isNight is3D items positions d =
     do { (idxA, idxB) \<leftarrow> getDistinctRandomIndices (length items) (indexDraws d);
          let diffX = px (positions ! idxB) - px (positions ! idxA);
          let diffY = py (positions ! idxB) - py (positions ! idxA);
          let diffZ = pz (positions ! idxB) - pz (positions ! idxA);
          let parts = standardParts is3D diffX diffY diffZ;
          let effectiveParts = (if isNight then map invertSpatial parts else parts);
          (asked, ans) \<leftarrow>
            (if length effectiveParts > 0 \<and> queryCoin d
             then do { i \<leftarrow> randInt (length effectiveParts) (partDraw d);
                       Some (effectiveParts ! i, True) }
             else do { fakeRaw \<leftarrow> pickFake (allDirs is3D) (\<lambda>f. f \<in> set effectiveParts) (fakeDraws d);
                       Some (fakeRaw, False) });
          Some \<lparr> subMode = ''STANDARD'', trueRelation = parts, askedRelation = asked,
                 queryText = ''Is '' @ items ! idxB @ '' '' @ getTerm st cm asked @ '' '' @
                    items ! idxA @ ''?'',
                 queryAnswer = ans \<rparr> }"

text \<open>
  The spatial branch up to its query: the walk must draw directions below 4 (2D) or 6
  (3D); then the sub-mode is selected and its branch run.
\<close>

definition spatialQuery ::
  "GameSettings \<Rightarrow> bool \<Rightarrow> nat \<Rightarrow> (string \<rightharpoonup> string) \<Rightarrow> bool \<Rightarrow> Draws \<Rightarrow> SpatialQuery option" where
  "spatialQuery st is3D num cm isNight d =
     (let items = generateSymbols (num + 1) (symbolDraw d);
          positions = spatialPositions (dirDraw d) num in
      if list_all (\<lambda>i. dirDraw d i < (if is3D then 6 else 4)) [0..<num]
      then do { ty \<leftarrow> selectedType st is3D (typeDraw d);
                if ty = ''DEICTIC'' then genDeictic st cm isNight items positions d
                else if ty = ''MOVEMENT'' then genMovement st cm isNight items positions d
                else genStandard st cm isNight is3D items positions d }
      else None)"

definition genSpatial ::
  "GameSettings \<Rightarrow> bool \<Rightarrow> nat \<Rightarrow> (string \<rightharpoonup> string) \<Rightarrow> bool \<Rightarrow> Draws \<Rightarrow> RawRound option" where
  "genSpatial st is3D num cm isNight d =
     do { q \<leftarrow> spatialQuery st is3D num cm isNight d;
          Some \<lparr> newPremises =
                   spatialPremises st cm (generateSymbols (num + 1) (symbolDraw d)) (dirDraw d) num,
                 newQuestion = queryText q,
                 newAnswer = queryAnswer q,
                 newModifiers = (if subMode q = ''STANDARD'' then [] else [subMode q]) \<rparr> }"

subsection \<open>generateLogic\<close>

definition generateRaw ::
  "GameSettings \<Rightarrow> RftMode \<Rightarrow> nat \<Rightarrow> (string \<rightharpoonup> string) \<Rightarrow> bool \<Rightarrow> Draws \<Rightarrow> RawRound option" where
  "generateRaw st mode num cm isNight d =
     (case mode of
        LINEAR \<Rightarrow> genLinear st num cm isNight d
      | DISTINCTION \<Rightarrow> genDistinction st num cm isNight d
      | HIERARCHY \<Rightarrow> genHierarchy st num cm isNight d
      | SPATIAL_2D \<Rightarrow> genSpatial st False num cm isNight d
      | SPATIAL_3D \<Rightarrow> genSpatial st True num cm isNight d)"

definition generateLogic ::
  "GameSettings \<Rightarrow> RftMode \<Rightarrow> nat \<Rightarrow> (string \<rightharpoonup> string) \<Rightarrow> bool \<Rightarrow> Draws \<Rightarrow> LogicData option" where
  "generateLogic st mode num cm isNight d =
     do { r \<leftarrow> generateRaw st mode num cm isNight d;
          shuffled \<leftarrow> shuffleArray (shuffleDraw d) (newPremises r);
          Some \<lparr> roundPremises = shuffled, question = newQuestion r, answer = newAnswer r,
                 modifiers = newModifiers r \<rparr> }"

subsection \<open>handleAnswer: scoring and adaptive depth\<close>

text \<open>
  The React state that \<^verbatim>\<open>handleAnswer\<close> reads and sets, as one value. The handler reads
  \<^verbatim>\<open>settings\<close>, \<^verbatim>\<open>progressCount\<close> and \<^verbatim>\<open>mistakeCount\<close> of the render it belongs to and
  queues its updates; the model applies them at once, one answer after the other. (The
  feedback message, the reaction time, the session log and the phase are left out.)
\<close>

record SessionState =
  settings :: GameSettings
  currentScore :: int
  questionsAttempted :: int
  maxDepthReached :: int
  progressCount :: int
  mistakeCount :: int

text \<open>
  \<open>userAnswer\<close> is \<open>None\<close> for a timeout (\<^verbatim>\<open>null\<close>); \<open>expected\<close> is
  \<^verbatim>\<open>expectedAnswerRef.current\<close>.
\<close>

definition handleAnswer :: "SessionState \<Rightarrow> bool option \<Rightarrow> bool \<Rightarrow> SessionState" where
  "handleAnswer s userAnswer expected =
     (let correct = (userAnswer = Some expected);
          depth = numPremises (settings s);
          s1 = s\<lparr>questionsAttempted := questionsAttempted s + 1\<rparr>
      in if correct
         then (let s2 = s1\<lparr>currentScore := currentScore s + depth * 10, mistakeCount := 0\<rparr>
               in if autoProgress (settings s)
                  then (if progressCount s \<ge> 2
                        then s2\<lparr>settings := (settings s)\<lparr>numPremises := depth + 1\<rparr>,
                                maxDepthReached := max (maxDepthReached s) (depth + 1),
                                progressCount := 0\<rparr>
                        else s2\<lparr>progressCount := progressCount s + 1\<rparr>)
                  else s2)
         else (let s2 = s1\<lparr>currentScore := max 0 (currentScore s - 20), progressCount := 0\<rparr>
               in if autoProgress (settings s) \<and> depth > 2
                  then (if mistakeCount s \<ge> 1
                        then s2\<lparr>settings := (settings s)\<lparr>numPremises := depth - 1\<rparr>,
                                mistakeCount := 0\<rparr>
                        else s2\<lparr>mistakeCount := mistakeCount s + 1\<rparr>)
                  else s2))"


subsection \<open>The history of a session\<close>





subsection \<open>A sample round\<close>

text \<open>
  Settings with every modifier off, and one outcome of the draws: three symbols A, B, C,
  the first link coin true and the second false, the index draws 0, 0 (rejected) and 2.
\<close>

definition sampleSettings :: GameSettings where
  "sampleSettings = \<lparr> numPremises = 2, autoProgress = True, enableDeictic = False,
      enableMovement = False, enableCipher = False \<rparr>"

definition sampleDraws :: Draws where
  "sampleDraws = \<lparr> symbolDraw = (\<lambda>i. if i = 0 then ''A'' else if i = 1 then ''B'' else ''C''),
      linkCoin = (\<lambda>i. i = 0), valueCoin = True, indexDraws = [0, 0, 2], queryCoin = True,
      dirDraw = (\<lambda>i. 0), typeDraw = 0, facingDraw = 1, partDraw = 0, fakeDraws = [0, 1],
      startDraw = 0, headingDraw = 1, movesDraw = 0, moveDraw = (\<lambda>i. Walk),
      targetDraws = [0, 1], shuffleDraw = [1, 0] \<rparr>"

subsection \<open>Notions used to state the theorems\<close>

text \<open>
  The relation a spatial query is sampled against (\<^verbatim>\<open>effectiveRel\<close>,
  \<^verbatim>\<open>effectiveParts\<close>): the true relation, with every component inverted at night.
\<close>

definition effective :: "bool \<Rightarrow> string list \<Rightarrow> string list" where
  "effective isNight rels = (if isNight then map invertSpatial rels else rels)"

text \<open>\<^verbatim>\<open>newPremises\<close> as the loop of each frame builds it, in the order of the links.\<close>

definition chainPremises ::
  "GameSettings \<Rightarrow> RftMode \<Rightarrow> nat \<Rightarrow> (string \<rightharpoonup> string) \<Rightarrow> Draws \<Rightarrow> string list" where
  "chainPremises st mode num cm d =
     (let items = generateSymbols (num + 1) (symbolDraw d) in
      case mode of
        LINEAR \<Rightarrow> linearPremises st cm items (linkCoin d) num
      | DISTINCTION \<Rightarrow> distinctionPremises st cm items (linkCoin d) num
      | HIERARCHY \<Rightarrow> hierarchyPremises st cm items num
      | SPATIAL_2D \<Rightarrow> spatialPremises st cm items (dirDraw d) num
      | SPATIAL_3D \<Rightarrow> spatialPremises st cm items (dirDraw d) num)"

section \<open>Theorems\<close>

subsection \<open>Rotation of Deictic and Movement\<close>

lemma rotation_agrees_north_south:
  "movementLocal 0 dx dy = deicticLocal 0 dx dy \<and> movementLocal 2 dx dy = deicticLocal 2 dx dy"
  by (simp add: movementLocal_def deicticLocal_def)

lemma rotation_opposite_east_west:
  "movementLocal 1 dx dy = (- fst (deicticLocal 1 dx dy), - snd (deicticLocal 1 dx dy)) \<and>
   movementLocal 3 dx dy = (- fst (deicticLocal 3 dx dy), - snd (deicticLocal 3 dx dy))"
  by (simp add: movementLocal_def deicticLocal_def)

text \<open>
  One step forward leaves the starting point behind the walker. The rotation of Deictic
  says so for every heading; the rotation of Movement puts it in front of a walker
  heading east or west.
\<close>

lemma deictic_start_behind_after_step:
  assumes "h < 4"
  shows "classifyLocal (deicticLocal (heading (moveStep Walk (Walker x0 y0 h)))
           (x0 - curX (moveStep Walk (Walker x0 y0 h)))
           (y0 - curY (moveStep Walk (Walker x0 y0 h)))) = ''BEHIND''"
proof -
  from assms have "h = 0 \<or> h = 1 \<or> h = 2 \<or> h = 3" by auto
  then show ?thesis
    by (auto simp: moveStep_def deicticLocal_def classifyLocal_def)
qed

lemma movement_start_in_front_after_step:
  assumes "h = 1 \<or> h = 3"
  shows "classifyLocal (movementLocal (heading (moveStep Walk (Walker x0 y0 h)))
           (x0 - curX (moveStep Walk (Walker x0 y0 h)))
           (y0 - curY (moveStep Walk (Walker x0 y0 h)))) = ''FRONT''"
  using assms by (auto simp: moveStep_def movementLocal_def classifyLocal_def)

text \<open>
  C1. The claim is that Movement rotates a displacement into the walker's frame exactly
  as Deictic does for an observer with the same heading, so that both give the same
  bearing. The code does not: heading EAST (1) with the target one step to the east,
  displacement \<open>(1, 0)\<close>, is \<open>(0, 1)\<close> and FRONT for Deictic, but \<open>(0, -1)\<close> and BEHIND
  for Movement. In the sample round with Movement enabled the walker starts at A
  \<open>(0, 0)\<close> facing east and walks two steps to \<open>(2, 0)\<close>; the target B at \<open>(0, 1)\<close> lies
  behind it, as the rotation of Deictic finds, and the round stores that B is in FRONT.
\<close>

theorem C1_movement_rotation_differs:
  "deicticLocal 1 1 0 = (0, 1) \<and> movementLocal 1 1 0 = (0, -1) \<and>
   classifyLocal (deicticLocal 1 1 0) = ''FRONT'' \<and>
   classifyLocal (movementLocal 1 1 0) = ''BEHIND'' \<and>
   generateLogic (sampleSettings\<lparr>enableMovement := True\<rparr>) SPATIAL_2D 2 Map.empty False
       sampleDraws =
     Some \<lparr> roundPremises = [''C NORTH B'', ''B NORTH A''],
            question = ''START A. FACE EAST. WALK 1. WALK 1. <br/><br/> Is B to your FRONT?'',
            answer = True, modifiers = [''MOVEMENT''] \<rparr> \<and>
   classifyLocal (movementLocal 1 (0 - 2) (1 - 0)) = ''FRONT'' \<and>
   classifyLocal (deicticLocal 1 (0 - 2) (1 - 0)) = ''BEHIND''"
  by code_simp

subsection \<open>invertSpatial is an involution\<close>

lemma split_acc_part:
  "nospace p \<Longrightarrow>
   js_split_acc '' and '' acc 0 (p @ '' and '' @ r) = (rev acc @ p) # js_split_acc '' and '' [] 0 r"
proof (induction p arbitrary: acc)
  case Nil
  show ?case by (simp add: numeral_eq_Suc)
next
  case (Cons c cs)
  then have "c \<noteq> CHR '' ''" and "nospace cs" by (auto simp: nospace_def)
  with Cons.IH [of "c # acc"] show ?case by simp
qed

lemma split_acc_last:
  "nospace p \<Longrightarrow> js_split_acc '' and '' acc 0 p = [rev acc @ p]"
proof (induction p arbitrary: acc)
  case Nil
  show ?case by simp
next
  case (Cons c cs)
  then have "c \<noteq> CHR '' ''" and "nospace cs" by (auto simp: nospace_def)
  with Cons.IH [of "c # acc"] show ?case by simp
qed

lemma split_join:
  "ps \<noteq> [] \<Longrightarrow> \<forall>p\<in>set ps. nospace p \<Longrightarrow> js_split '' and '' (js_join '' and '' ps) = ps"
proof (induction "'' and ''" ps rule: js_join.induct)
  case 1
  then show ?case by simp
next
  case (2 p)
  then show ?case by (simp add: js_split_def split_acc_last)
next
  case (3 p q ps)
  then have "js_split '' and '' (js_join '' and '' (q # ps)) = q # ps" by simp
  moreover have "nospace p" using 3 by simp
  ultimately show ?case
    using split_acc_part [of p "[]" "js_join '' and '' (q # ps)"]
    by (simp add: js_split_def)
qed

lemma includes_nospace: "nospace p \<Longrightarrow> \<not> js_includes '' and '' p"
  by (induction p) (auto simp: nospace_def)

lemma includes_sep: "js_includes '' and '' (p @ '' and '' @ r)"
  by (induction p) auto

lemma includes_join:
  "\<forall>p\<in>set ps. nospace p \<Longrightarrow> js_includes '' and '' (js_join '' and '' ps) = (2 \<le> length ps)"
proof (cases ps)
  case Nil
  then show ?thesis by simp
next
  case (Cons p qs)
  assume h: "\<forall>p\<in>set ps. nospace p"
  show ?thesis
  proof (cases qs)
    case Nil
    with Cons h show ?thesis by (simp add: includes_nospace)
  next
    case (Cons q rs)
    with \<open>ps = p # qs\<close> show ?thesis using includes_sep [of p "js_join '' and '' (q # rs)"] by simp
  qed
qed

lemma invertWord_direction:
  "isDirection d \<Longrightarrow> isDirection (invertWord d) \<and> invertWord (invertWord d) = d \<and> nospace d"
  unfolding isDirection_def
  by (auto simp: invertWord_def invertTable_def nospace_def)

lemma invertSpatial_join:
  assumes "ds \<noteq> []" "\<forall>d\<in>set ds. isDirection d"
  shows "invertSpatial (js_join '' and '' ds) = js_join '' and '' (map invertWord ds)"
proof -
  have ns: "\<forall>d\<in>set ds. nospace d" using assms invertWord_direction by blast
  show ?thesis
  proof (cases "2 \<le> length ds")
    case True
    then show ?thesis using assms ns
      by (simp add: invertSpatial_def includes_join split_join)
  next
    case False
    with assms obtain d where "ds = [d]" by (cases ds) (auto simp: not_le Suc_le_eq)
    then show ?thesis using ns by (simp add: invertSpatial_def includes_nospace)
  qed
qed

text \<open>
  C8. On every relation it handles, that is SAME LOCATION and every non-empty list of
  direction words joined with " and " (a single direction being the list of one),
  \<^verbatim>\<open>invertSpatial\<close> applied twice gives the relation back.
\<close>

theorem C8_invertSpatial_involution:
  assumes "R = ''SAME LOCATION'' \<or>
     (\<exists>ds. ds \<noteq> [] \<and> (\<forall>d\<in>set ds. isDirection d) \<and> R = js_join '' and '' ds)"
  shows "invertSpatial (invertSpatial R) = R"
  using assms
proof
  assume "R = ''SAME LOCATION''"
  then show ?thesis by (simp add: invertSpatial_def invertWord_def invertTable_def)
next
  assume "\<exists>ds. ds \<noteq> [] \<and> (\<forall>d\<in>set ds. isDirection d) \<and> R = js_join '' and '' ds"
  then obtain ds where ds: "ds \<noteq> []" "\<forall>d\<in>set ds. isDirection d" "R = js_join '' and '' ds"
    by blast
  have ds': "map invertWord ds \<noteq> []" "\<forall>d\<in>set (map invertWord ds). isDirection d"
    using ds invertWord_direction by auto
  have "map invertWord (map invertWord ds) = ds"
    using ds(2) invertWord_direction by (simp add: map_idI)
  then show ?thesis
    using invertSpatial_join [OF ds(1,2)] invertSpatial_join [OF ds'] ds(3) by simp
qed

theorem C8_invertSpatial_involution_witness:
  "invertSpatial ''NORTH and WEST'' = ''SOUTH and EAST'' \<and>
   invertSpatial (invertSpatial ''NORTH and WEST'') = ''NORTH and WEST''"
proof -
  have h: "''NORTH and WEST'' = ''SAME LOCATION'' \<or>
     (\<exists>ds. ds \<noteq> [] \<and> (\<forall>d\<in>set ds. isDirection d) \<and> ''NORTH and WEST'' = js_join '' and '' ds)"
    by (rule disjI2, rule exI [of _ "[''NORTH'', ''WEST'']"]) (simp add: isDirection_def)
  have "invertSpatial ''NORTH and WEST'' = ''SOUTH and EAST''"
    by (simp add: invertSpatial_def js_split_def invertWord_def invertTable_def numeral_eq_Suc)
  with C8_invertSpatial_involution [OF h] show ?thesis by simp
qed

subsection \<open>Linear, Distinction and Hierarchy rounds\<close>

lemma redrawDistinct_Some:
  "redrawDistinct cnt a bs = Some b \<Longrightarrow> b < cnt \<and> a \<noteq> b"
  by (induction bs) (auto split: if_splits)

lemma getDistinctRandomIndices_Some:
  "getDistinctRandomIndices cnt ds = Some (a, b) \<Longrightarrow> a < cnt \<and> b < cnt \<and> a \<noteq> b"
  by (auto simp: getDistinctRandomIndices_def randInt_def bind_eq_Some_conv
      split: list.splits if_splits dest: redrawDistinct_Some)

lemma generateSymbols_nth: "i < cnt \<Longrightarrow> generateSymbols cnt f ! i = f i"
  by (simp add: generateSymbols_def)

lemma generateSymbols_length: "length (generateSymbols cnt f) = cnt"
  by (simp add: generateSymbols_def)

lemma generateLogic_Some:
  "generateLogic st mode num cm isNight d = Some r \<Longrightarrow>
   \<exists>raw. generateRaw st mode num cm isNight d = Some raw \<and>
         shuffleArray (shuffleDraw d) (newPremises raw) = Some (roundPremises r) \<and>
         question r = newQuestion raw \<and> answer r = newAnswer raw \<and>
         modifiers r = newModifiers raw"
  by (auto simp: generateLogic_def bind_eq_Some_conv)

lemma genLinear_Some:
  assumes "genLinear st num cm isNight d = Some raw"
  shows "\<exists>idxA idxB. getDistinctRandomIndices (num + 1) (indexDraws d) = Some (idxA, idxB) \<and>
     newPremises raw = linearPremises st cm (generateSymbols (num + 1) (symbolDraw d)) (linkCoin d) num \<and>
     newQuestion raw = ''Is '' @ symbolDraw d idxA @ '' '' @
        getTerm st cm (if queryCoin d then ''GREATER'' else ''LESS'') @ '' '' @
        (if enableCipher st then [] else ''than'') @ '' '' @ symbolDraw d idxB @ ''?'' \<and>
     newAnswer raw = ((if queryCoin d then idxA < idxB else idxB < idxA) \<noteq> isNight)"
proof -
  from assms obtain idxA idxB where
    i: "getDistinctRandomIndices (num + 1) (indexDraws d) = Some (idxA, idxB)"
    by (auto simp: genLinear_def Let_def bind_eq_Some_conv)
  then have r: "idxA < num + 1" "idxB < num + 1" using getDistinctRandomIndices_Some by blast+
  from assms i r show ?thesis
    by (auto simp: genLinear_def Let_def generateSymbols_nth)
qed

text \<open>
  C2, as the code has it. In a Linear round without night mode the two sampled indices
  are distinct and the answer follows from their order alone, with the earlier index the
  greater item: a GREATER question about \<open>idxA\<close>, \<open>idxB\<close> is true iff \<open>idxA < idxB\<close>, a
  LESS question iff \<open>idxA > idxB\<close>. The per-link labels have no influence: any other
  outcome of the link coins gives the same answer.
\<close>

theorem C2_linear_answer:
  assumes "generateLogic st LINEAR num cm False d = Some r"
  shows "\<exists>idxA idxB. getDistinctRandomIndices (num + 1) (indexDraws d) = Some (idxA, idxB) \<and>
     idxA \<noteq> idxB \<and>
     question r = ''Is '' @ symbolDraw d idxA @ '' '' @
        getTerm st cm (if queryCoin d then ''GREATER'' else ''LESS'') @ '' '' @
        (if enableCipher st then [] else ''than'') @ '' '' @ symbolDraw d idxB @ ''?'' \<and>
     answer r = (if queryCoin d then idxA < idxB else idxB < idxA) \<and>
     (\<forall>coin. map_option answer (generateLogic st LINEAR num cm False (d\<lparr>linkCoin := coin\<rparr>))
               = Some (answer r))"
proof -
  from generateLogic_Some [OF assms] obtain raw where
    raw: "genLinear st num cm False d = Some raw"
      "shuffleArray (shuffleDraw d) (newPremises raw) = Some (roundPremises r)"
      "question r = newQuestion raw" "answer r = newAnswer raw"
    by (auto simp: generateRaw_def)
  from genLinear_Some [OF raw(1)] obtain idxA idxB where
    i: "getDistinctRandomIndices (num + 1) (indexDraws d) = Some (idxA, idxB)"
      "newPremises raw = linearPremises st cm (generateSymbols (num + 1) (symbolDraw d)) (linkCoin d) num"
      "newQuestion raw = ''Is '' @ symbolDraw d idxA @ '' '' @
        getTerm st cm (if queryCoin d then ''GREATER'' else ''LESS'') @ '' '' @
        (if enableCipher st then [] else ''than'') @ '' '' @ symbolDraw d idxB @ ''?''"
      "newAnswer raw = (if queryCoin d then idxA < idxB else idxB < idxA)"
    by auto
  have perm: "isPermutation num (shuffleDraw d)"
    using raw(2) i(2) by (simp add: shuffleArray_def linearPremises_def split: if_splits)
  have "map_option answer (generateLogic st LINEAR num cm False (d\<lparr>linkCoin := coin\<rparr>))
          = Some (answer r)" for coin
    using i(1) raw(4) i(4) perm
    by (simp add: generateLogic_def generateRaw_def genLinear_def Let_def shuffleArray_def
        linearPremises_def)
  with i raw getDistinctRandomIndices_Some [OF i(1)] show ?thesis by auto
qed

text \<open>
  The claim C2 reads the order the other way round (earlier index = lesser, a GREATER
  question true iff \<open>idxA > idxB\<close>). In the sample round the question is GREATER about
  the indices 0 and 2, and the stored answer is true although \<open>0 > 2\<close> is false.
\<close>

theorem C2_counterexample:
  "generateLogic sampleSettings LINEAR 2 Map.empty False sampleDraws =
     Some \<lparr> roundPremises = [''B is LESS than C'', ''A is GREATER than B''],
            question = ''Is A GREATER than C?'', answer = True, modifiers = [] \<rparr> \<and>
   getDistinctRandomIndices 3 (indexDraws sampleDraws) = Some (0, 2) \<and> \<not> (0::nat) > 2"
  by code_simp

theorem C2_linear_answer_witness:
  "\<exists>idxA idxB. getDistinctRandomIndices 3 (indexDraws sampleDraws) = Some (idxA, idxB) \<and>
     idxA < idxB \<and>
     map_option answer (generateLogic sampleSettings LINEAR 2 Map.empty False sampleDraws) = Some True"
proof -
  have h: "generateLogic sampleSettings LINEAR 2 Map.empty False sampleDraws =
     Some \<lparr> roundPremises = [''B is LESS than C'', ''A is GREATER than B''],
            question = ''Is A GREATER than C?'', answer = True, modifiers = [] \<rparr>"
    by code_simp
  from C2_linear_answer [OF h] obtain idxA idxB where
    "getDistinctRandomIndices (2 + 1) (indexDraws sampleDraws) = Some (idxA, idxB)"
    "True = (if queryCoin sampleDraws then idxA < idxB else idxB < idxA)"
    by auto
  then show ?thesis using h by (auto simp: sampleDraws_def)
qed

lemma distinctionValues_length: "length (distinctionValues v0 f n) = n + 1"
  by (induction n) (simp_all add: Let_def)

lemma distinctionValues_prefix:
  "i \<le> m \<Longrightarrow> distinctionValues v0 f (m + k) ! i = distinctionValues v0 f m ! i"
  by (induction k) (simp_all add: Let_def nth_append distinctionValues_length)

lemma distinctionValues_first: "distinctionValues v0 f n ! 0 = (if v0 then 1 else 0)"
  using distinctionValues_prefix [of 0 0 v0 f n] by simp

lemma distinctionValues_chain:
  assumes "i < n"
  shows "distinctionValues v0 f n ! (i + 1) =
     (if f i then distinctionValues v0 f n ! i else 1 - distinctionValues v0 f n ! i)"
proof -
  obtain k where n: "n = Suc i + k" using assms less_iff_Suc_add by auto
  have a: "distinctionValues v0 f n ! (i + 1) = distinctionValues v0 f (Suc i) ! (i + 1)"
    unfolding n using distinctionValues_prefix [of "i + 1" "Suc i" v0 f k] by simp
  have b: "distinctionValues v0 f n ! i = distinctionValues v0 f i ! i"
    unfolding n using distinctionValues_prefix [of i i v0 f "Suc k"] by simp
  have c: "distinctionValues v0 f (Suc i) ! (i + 1) =
     (if f i then distinctionValues v0 f i ! i else 1 - distinctionValues v0 f i ! i)"
    by (simp add: Let_def nth_append distinctionValues_length)
  show ?thesis unfolding a b c ..
qed

lemma genDistinction_Some:
  assumes "genDistinction st num cm isNight d = Some raw"
  shows "\<exists>idxA idxB. getDistinctRandomIndices (num + 1) (indexDraws d) = Some (idxA, idxB) \<and>
     newPremises raw =
       distinctionPremises st cm (generateSymbols (num + 1) (symbolDraw d)) (linkCoin d) num \<and>
     newQuestion raw = ''Is '' @ symbolDraw d idxA @ '' '' @
        (if enableCipher st then getTerm st cm (if queryCoin d then ''SAME'' else ''DIFFERENT'')
         else if queryCoin d then ''the SAME as'' else ''DIFFERENT from'') @ '' '' @
        symbolDraw d idxB @ ''?'' \<and>
     newAnswer raw =
       ((if queryCoin d
         then distinctionValues (valueCoin d) (linkCoin d) num ! idxA =
              distinctionValues (valueCoin d) (linkCoin d) num ! idxB
         else distinctionValues (valueCoin d) (linkCoin d) num ! idxA \<noteq>
              distinctionValues (valueCoin d) (linkCoin d) num ! idxB) \<noteq> isNight)"
proof -
  from assms obtain idxA idxB where
    i: "getDistinctRandomIndices (num + 1) (indexDraws d) = Some (idxA, idxB)"
    by (auto simp: genDistinction_def Let_def bind_eq_Some_conv)
  then have r: "idxA < num + 1" "idxB < num + 1" using getDistinctRandomIndices_Some by blast+
  from assms i r show ?thesis
    by (cases "queryCoin d"; cases isNight)
       (auto simp: genDistinction_def Let_def generateSymbols_nth)
qed

text \<open>
  C4. In a Distinction round without night mode the values follow the chain rule (the
  first value is the first draw, a SAME link copies the value and a DIFFERENT link flips
  it), the two sampled indices are distinct, and the answer is the equality of the two
  values for a SAME question and their inequality for a DIFFERENT question.
\<close>

theorem C4_distinction_answer:
  assumes "generateLogic st DISTINCTION num cm False d = Some r"
  shows "\<exists>idxA idxB vals.
     getDistinctRandomIndices (num + 1) (indexDraws d) = Some (idxA, idxB) \<and> idxA \<noteq> idxB \<and>
     vals = distinctionValues (valueCoin d) (linkCoin d) num \<and>
     length vals = num + 1 \<and>
     vals ! 0 = (if valueCoin d then 1 else 0) \<and>
     (\<forall>i<num. vals ! (i + 1) = (if linkCoin d i then vals ! i else 1 - vals ! i)) \<and>
     question r = ''Is '' @ symbolDraw d idxA @ '' '' @
        (if enableCipher st then getTerm st cm (if queryCoin d then ''SAME'' else ''DIFFERENT'')
         else if queryCoin d then ''the SAME as'' else ''DIFFERENT from'') @ '' '' @
        symbolDraw d idxB @ ''?'' \<and>
     answer r = (if queryCoin d then vals ! idxA = vals ! idxB else vals ! idxA \<noteq> vals ! idxB)"
proof -
  from generateLogic_Some [OF assms] obtain raw where
    raw: "genDistinction st num cm False d = Some raw"
      "question r = newQuestion raw" "answer r = newAnswer raw"
    by (auto simp: generateRaw_def)
  from genDistinction_Some [OF raw(1)] obtain idxA idxB where
    i: "getDistinctRandomIndices (num + 1) (indexDraws d) = Some (idxA, idxB)"
      "newQuestion raw = ''Is '' @ symbolDraw d idxA @ '' '' @
        (if enableCipher st then getTerm st cm (if queryCoin d then ''SAME'' else ''DIFFERENT'')
         else if queryCoin d then ''the SAME as'' else ''DIFFERENT from'') @ '' '' @
        symbolDraw d idxB @ ''?''"
      "newAnswer raw =
       (if queryCoin d
         then distinctionValues (valueCoin d) (linkCoin d) num ! idxA =
              distinctionValues (valueCoin d) (linkCoin d) num ! idxB
         else distinctionValues (valueCoin d) (linkCoin d) num ! idxA \<noteq>
              distinctionValues (valueCoin d) (linkCoin d) num ! idxB)"
    by auto
  have "idxA \<noteq> idxB" using getDistinctRandomIndices_Some [OF i(1)] by simp
  with i raw(2,3) show ?thesis
    using distinctionValues_length [of "valueCoin d" "linkCoin d" num]
      distinctionValues_first [of "valueCoin d" "linkCoin d" num]
      distinctionValues_chain [of _ num "valueCoin d" "linkCoin d"]
    by auto
qed

theorem C4_distinction_answer_witness:
  "distinctionValues (valueCoin sampleDraws) (linkCoin sampleDraws) 2 = [1, 1, 0] \<and>
   getDistinctRandomIndices 3 (indexDraws sampleDraws) = Some (0, 2) \<and>
   map_option answer (generateLogic sampleSettings DISTINCTION 2 Map.empty False sampleDraws)
     = Some False"
proof -
  have h: "generateLogic sampleSettings DISTINCTION 2 Map.empty False sampleDraws =
     Some \<lparr> roundPremises = [''B DIFFERENT C'', ''A SAME B''],
            question = ''Is A the SAME as C?'', answer = False, modifiers = [] \<rparr>"
    by code_simp
  have v: "distinctionValues (valueCoin sampleDraws) (linkCoin sampleDraws) 2 = [1, 1, 0]"
    by code_simp
  have g: "getDistinctRandomIndices 3 (indexDraws sampleDraws) = Some (0, 2)"
    by code_simp
  from C4_distinction_answer [OF h] v g h show ?thesis by simp
qed

lemma createPremise_plain:
  "\<not> enableCipher st \<Longrightarrow> createPremise st cm a rel b = a @ '' '' @ rel @ '' '' @ b"
  by (simp add: createPremise_def cipherOf_def Let_def split: option.splits)

lemma isPermutation_set:
  assumes "isPermutation n p"
  shows "set p = {0..<n}"
proof -
  from assms have l: "length p = n" and dis: "distinct p" and sub: "set p \<subseteq> {0..<n}"
    by (auto simp: isPermutation_def list_all_iff)
  from dis l have "card (set p) = n" by (simp add: distinct_card)
  with sub show ?thesis by (simp add: card_subset_eq)
qed

lemma shuffleArray_mset:
  assumes "shuffleArray p xs = Some ys"
  shows "mset ys = mset xs"
proof -
  from assms have perm: "isPermutation (length xs) p" and ys: "ys = map (\<lambda>i. xs ! i) p"
    by (auto simp: shuffleArray_def split: if_splits)
  have "distinct p" using perm by (simp add: isPermutation_def)
  moreover have "set p = set [0..<length xs]" using isPermutation_set [OF perm] by simp
  ultimately have "mset p = mset [0..<length xs]"
    by (metis set_eq_iff_mset_eq_distinct distinct_upt)
  then have "mset (map (\<lambda>i. xs ! i) p) = mset (map (\<lambda>i. xs ! i) [0..<length xs])"
    by (metis mset_map)
  then show ?thesis by (simp add: ys map_nth)
qed

lemma genHierarchy_Some:
  assumes "genHierarchy st num cm isNight d = Some raw"
  shows "\<exists>idxA idxB. getDistinctRandomIndices (num + 1) (indexDraws d) = Some (idxA, idxB) \<and>
     newPremises raw = hierarchyPremises st cm (generateSymbols (num + 1) (symbolDraw d)) num \<and>
     newQuestion raw =
       (if queryCoin d
        then ''Is '' @ symbolDraw d idxA @ '' '' @ getTerm st cm ''INSIDE'' @ '' '' @
               symbolDraw d idxB @ ''?''
        else ''Does '' @ symbolDraw d idxA @ '' '' @ getTerm st cm ''CONTAINS'' @ '' '' @
               symbolDraw d idxB @ ''?'') \<and>
     newAnswer raw = ((if queryCoin d then idxB < idxA else idxA < idxB) \<noteq> isNight)"
proof -
  from assms obtain idxA idxB where
    i: "getDistinctRandomIndices (num + 1) (indexDraws d) = Some (idxA, idxB)"
    by (auto simp: genHierarchy_def Let_def bind_eq_Some_conv)
  then have r: "idxA < num + 1" "idxB < num + 1" using getDistinctRandomIndices_Some by blast+
  from assms i r show ?thesis
    by (auto simp: genHierarchy_def Let_def generateSymbols_nth)
qed


text \<open>
  C5. In a Hierarchy round without night mode the premises built are exactly
  "item i CONTAINS item i+1" for every link, with no draw involved, and the returned
  premises are these in some order; an INSIDE question about \<open>idxA\<close>, \<open>idxB\<close> is answered
  \<open>idxA > idxB\<close> and a CONTAINS question \<open>idxA < idxB\<close>.
\<close>

theorem C5_hierarchy_chain_and_answer:
  assumes "generateLogic st HIERARCHY num cm False d = Some r"
  shows "\<exists>idxA idxB chain.
     getDistinctRandomIndices (num + 1) (indexDraws d) = Some (idxA, idxB) \<and> idxA \<noteq> idxB \<and>
     length chain = num \<and>
     (\<forall>i<num. chain ! i = createPremise st cm (symbolDraw d i) ''CONTAINS'' (symbolDraw d (i + 1))) \<and>
     (\<not> enableCipher st \<longrightarrow>
        (\<forall>i<num. chain ! i = symbolDraw d i @ '' CONTAINS '' @ symbolDraw d (i + 1))) \<and>
     mset (roundPremises r) = mset chain \<and>
     (queryCoin d \<longrightarrow>
        question r = ''Is '' @ symbolDraw d idxA @ '' '' @ getTerm st cm ''INSIDE'' @ '' '' @
               symbolDraw d idxB @ ''?'' \<and>
        answer r = (idxA > idxB)) \<and>
     (\<not> queryCoin d \<longrightarrow>
        question r = ''Does '' @ symbolDraw d idxA @ '' '' @ getTerm st cm ''CONTAINS'' @ '' '' @
               symbolDraw d idxB @ ''?'' \<and>
        answer r = (idxA < idxB))"
proof -
  from generateLogic_Some [OF assms] obtain raw where
    raw: "genHierarchy st num cm False d = Some raw"
      "shuffleArray (shuffleDraw d) (newPremises raw) = Some (roundPremises r)"
      "question r = newQuestion raw" "answer r = newAnswer raw"
    by (auto simp: generateRaw_def)
  define chain where "chain = hierarchyPremises st cm (generateSymbols (num + 1) (symbolDraw d)) num"
  from genHierarchy_Some [OF raw(1)] obtain idxA idxB where
    i: "getDistinctRandomIndices (num + 1) (indexDraws d) = Some (idxA, idxB)"
      "newPremises raw = chain"
      "newQuestion raw =
       (if queryCoin d
        then ''Is '' @ symbolDraw d idxA @ '' '' @ getTerm st cm ''INSIDE'' @ '' '' @
               symbolDraw d idxB @ ''?''
        else ''Does '' @ symbolDraw d idxA @ '' '' @ getTerm st cm ''CONTAINS'' @ '' '' @
               symbolDraw d idxB @ ''?'')"
      "newAnswer raw = (if queryCoin d then idxB < idxA else idxA < idxB)"
    unfolding chain_def by auto
  have ne: "idxA \<noteq> idxB" using getDistinctRandomIndices_Some [OF i(1)] by simp
  have len: "length chain = num" by (simp add: chain_def hierarchyPremises_def)
  have nth: "\<forall>i<num. chain ! i = createPremise st cm (symbolDraw d i) ''CONTAINS'' (symbolDraw d (i + 1))"
    by (simp add: chain_def hierarchyPremises_def generateSymbols_nth)
  have plain: "\<not> enableCipher st \<longrightarrow>
        (\<forall>i<num. chain ! i = symbolDraw d i @ '' CONTAINS '' @ symbolDraw d (i + 1))"
    using nth by (simp add: createPremise_plain)
  have ms: "mset (roundPremises r) = mset chain"
    using shuffleArray_mset raw(2) i(2) by metis
  have q: "queryCoin d \<longrightarrow>
        question r = ''Is '' @ symbolDraw d idxA @ '' '' @ getTerm st cm ''INSIDE'' @ '' '' @
               symbolDraw d idxB @ ''?'' \<and> answer r = (idxA > idxB)"
    using raw(3,4) i(3,4) by simp
  have q': "\<not> queryCoin d \<longrightarrow>
        question r = ''Does '' @ symbolDraw d idxA @ '' '' @ getTerm st cm ''CONTAINS'' @ '' '' @
               symbolDraw d idxB @ ''?'' \<and> answer r = (idxA < idxB)"
    using raw(3,4) i(3,4) by simp
  from i(1) ne len nth plain ms q q' show ?thesis by blast
qed

theorem C5_hierarchy_chain_and_answer_witness:
  "generateLogic sampleSettings HIERARCHY 2 Map.empty False sampleDraws =
     Some \<lparr> roundPremises = [''B CONTAINS C'', ''A CONTAINS B''],
            question = ''Is A INSIDE C?'', answer = False, modifiers = [] \<rparr> \<and>
   (\<exists>idxA idxB. getDistinctRandomIndices 3 (indexDraws sampleDraws) = Some (idxA, idxB) \<and>
      False = (idxA > idxB))"
proof -
  have h: "generateLogic sampleSettings HIERARCHY 2 Map.empty False sampleDraws =
     Some \<lparr> roundPremises = [''B CONTAINS C'', ''A CONTAINS B''],
            question = ''Is A INSIDE C?'', answer = False, modifiers = [] \<rparr>"
    by code_simp
  have c: "queryCoin sampleDraws" by (simp add: sampleDraws_def)
  from C5_hierarchy_chain_and_answer [OF h] c obtain idxA idxB where
    "getDistinctRandomIndices (2 + 1) (indexDraws sampleDraws) = Some (idxA, idxB)"
    "False = (idxA > idxB)"
    by auto
  with h show ?thesis by auto
qed

subsection \<open>Spatial rounds\<close>

lemma pickFake_Some:
  "pickFake dirs rejected fs = Some f \<Longrightarrow> f \<in> set dirs \<and> \<not> rejected f"
  by (induction fs) (auto split: if_splits)

lemma bearingQuery_Some:
  "bearingQuery eff coin fakes = Some (asked, ans) \<Longrightarrow> ans = (asked = eff)"
  by (auto simp: bearingQuery_def bind_eq_Some_conv split: if_splits dest: pickFake_Some)

lemma genDeictic_Some:
  assumes "genDeictic st cm isNight items positions d = Some q"
  shows "\<exists>idxMe idxTarget facingDir pre.
     getDistinctRandomIndices (length items) (indexDraws d) = Some (idxMe, idxTarget) \<and>
     randInt 4 (facingDraw d) = Some facingDir \<and>
     subMode q = ''DEICTIC'' \<and>
     trueRelation q = [classifyLocal (deicticLocal facingDir
        (px (positions ! idxTarget) - px (positions ! idxMe))
        (py (positions ! idxTarget) - py (positions ! idxMe)))] \<and>
     queryAnswer q = (askedRelation q \<in> set (effective isNight (trueRelation q))) \<and>
     queryText q = pre @ getTerm st cm (askedRelation q) @ ''?''"
proof -
  from assms obtain idxMe idxTarget facingDir asked ans where
    i: "getDistinctRandomIndices (length items) (indexDraws d) = Some (idxMe, idxTarget)"
    and f: "randInt 4 (facingDraw d) = Some facingDir"
    and b: "bearingQuery
        (if isNight then invertSpatial (classifyLocal (deicticLocal facingDir
            (px (positions ! idxTarget) - px (positions ! idxMe))
            (py (positions ! idxTarget) - py (positions ! idxMe))))
         else classifyLocal (deicticLocal facingDir
            (px (positions ! idxTarget) - px (positions ! idxMe))
            (py (positions ! idxTarget) - py (positions ! idxMe))))
        (queryCoin d) (fakeDraws d) = Some (asked, ans)"
    and q: "q = \<lparr> subMode = ''DEICTIC'',
        trueRelation = [classifyLocal (deicticLocal facingDir
            (px (positions ! idxTarget) - px (positions ! idxMe))
            (py (positions ! idxTarget) - py (positions ! idxMe)))],
        askedRelation = asked,
        queryText = ''You are at '' @ items ! idxMe @ '' facing '' @
           getTerm st cm (headingNames ! facingDir) @
           ''.<br/>Is '' @ items ! idxTarget @ '' to your '' @ getTerm st cm asked @ ''?'',
        queryAnswer = ans \<rparr>"
    by (auto simp: genDeictic_def Let_def bind_eq_Some_conv)
  have t: "queryText q = (''You are at '' @ items ! idxMe @ '' facing '' @
           getTerm st cm (headingNames ! facingDir) @
           ''.<br/>Is '' @ items ! idxTarget @ '' to your '') @ getTerm st cm (askedRelation q) @ ''?''"
    by (simp add: q)
  have a: "queryAnswer q = (askedRelation q \<in> set (effective isNight (trueRelation q)))"
    using bearingQuery_Some [OF b] by (simp add: q effective_def)
  from i f t a show ?thesis unfolding q by (intro exI conjI; (assumption | simp))
qed

lemma genMovement_Some:
  assumes "genMovement st cm isNight items positions d = Some q"
  shows "\<exists>startIdx heading0 extra targetIdx w pre.
     randInt (length items) (startDraw d) = Some startIdx \<and>
     randInt 4 (headingDraw d) = Some heading0 \<and>
     randInt 2 (movesDraw d) = Some extra \<and>
     w = walkMoves (moveDraw d) (2 + extra)
           (Walker (px (positions ! startIdx)) (py (positions ! startIdx)) heading0) \<and>
     targetSearch (length items) positions startIdx w (targetDraws d) = Some targetIdx \<and>
     subMode q = ''MOVEMENT'' \<and>
     trueRelation q = [classifyLocal (movementLocal (heading w)
        (px (positions ! targetIdx) - curX w) (py (positions ! targetIdx) - curY w))] \<and>
     queryAnswer q = (askedRelation q \<in> set (effective isNight (trueRelation q))) \<and>
     queryText q = pre @ getTerm st cm (askedRelation q) @ ''?''"
proof -
  from assms obtain startIdx heading0 extra where
    s: "randInt (length items) (startDraw d) = Some startIdx"
    and h: "randInt 4 (headingDraw d) = Some heading0"
    and e: "randInt 2 (movesDraw d) = Some extra"
    by (auto simp: genMovement_def bind_eq_Some_conv)
  define w where "w = walkMoves (moveDraw d) (2 + extra)
           (Walker (px (positions ! startIdx)) (py (positions ! startIdx)) heading0)"
  define instructions where "instructions =
     [getTerm st cm ''START'' @ '' '' @ items ! startIdx @ ''.'',
      getTerm st cm ''FACE'' @ '' '' @ getTerm st cm (headingNames ! heading0) @ ''.''] @
     map (\<lambda>m. moveText st cm (moveDraw d m)) [0..<2 + extra]"
  from assms s h e obtain targetIdx asked ans where
    t: "targetSearch (length items) positions startIdx w (targetDraws d) = Some targetIdx"
    and b: "bearingQuery
        (if isNight then invertSpatial (classifyLocal (movementLocal (heading w)
            (px (positions ! targetIdx) - curX w) (py (positions ! targetIdx) - curY w)))
         else classifyLocal (movementLocal (heading w)
            (px (positions ! targetIdx) - curX w) (py (positions ! targetIdx) - curY w)))
        (queryCoin d) (fakeDraws d) = Some (asked, ans)"
    and q: "q = \<lparr> subMode = ''MOVEMENT'',
        trueRelation = [classifyLocal (movementLocal (heading w)
            (px (positions ! targetIdx) - curX w) (py (positions ! targetIdx) - curY w))],
        askedRelation = asked,
        queryText = js_join '' '' instructions @ '' <br/><br/> Is '' @ items ! targetIdx @
                    '' to your '' @ getTerm st cm asked @ ''?'',
        queryAnswer = ans \<rparr>"
    unfolding genMovement_def Let_def w_def instructions_def
    by (auto simp: bind_eq_Some_conv simp del: walkMoves.simps upt_Suc)
  have tx: "queryText q = (js_join '' '' instructions @ '' <br/><br/> Is '' @ items ! targetIdx @
                    '' to your '') @ getTerm st cm (askedRelation q) @ ''?''"
    by (simp add: q)
  have a: "queryAnswer q = (askedRelation q \<in> set (effective isNight (trueRelation q)))"
    using bearingQuery_Some [OF b] by (simp add: q effective_def)
  from s h e t tx a w_def show ?thesis unfolding q by (intro exI conjI; (assumption | simp))
qed

lemma genStandard_Some:
  assumes "genStandard st cm isNight is3D items positions d = Some q"
  shows "\<exists>idxA idxB.
     getDistinctRandomIndices (length items) (indexDraws d) = Some (idxA, idxB) \<and>
     subMode q = ''STANDARD'' \<and>
     trueRelation q = standardParts is3D
        (px (positions ! idxB) - px (positions ! idxA))
        (py (positions ! idxB) - py (positions ! idxA))
        (pz (positions ! idxB) - pz (positions ! idxA)) \<and>
     queryAnswer q = (askedRelation q \<in> set (effective isNight (trueRelation q))) \<and>
     queryText q = ''Is '' @ items ! idxB @ '' '' @ getTerm st cm (askedRelation q) @ '' '' @
                    items ! idxA @ ''?''"
proof -
  from assms obtain idxA idxB where
    i: "getDistinctRandomIndices (length items) (indexDraws d) = Some (idxA, idxB)"
    by (auto simp: genStandard_def bind_eq_Some_conv)
  define parts where "parts = standardParts is3D
        (px (positions ! idxB) - px (positions ! idxA))
        (py (positions ! idxB) - py (positions ! idxA))
        (pz (positions ! idxB) - pz (positions ! idxA))"
  from assms i obtain asked ans where
    p: "(if length (effective isNight parts) > 0 \<and> queryCoin d
         then do { i \<leftarrow> randInt (length (effective isNight parts)) (partDraw d);
                   Some (effective isNight parts ! i, True) }
         else do { fakeRaw \<leftarrow> pickFake (allDirs is3D) (\<lambda>f. f \<in> set (effective isNight parts))
                                 (fakeDraws d);
                   Some (fakeRaw, False) }) = Some (asked, ans)"
    and q: "q = \<lparr> subMode = ''STANDARD'', trueRelation = parts, askedRelation = asked,
        queryText = ''Is '' @ items ! idxB @ '' '' @ getTerm st cm asked @ '' '' @
                    items ! idxA @ ''?'',
        queryAnswer = ans \<rparr>"
    unfolding genStandard_def Let_def parts_def effective_def
    by (auto simp: bind_eq_Some_conv)
  have "ans = (asked \<in> set (effective isNight parts))"
  proof (cases "length (effective isNight parts) > 0 \<and> queryCoin d")
    case True
    with p obtain k where "k < length (effective isNight parts)"
      "asked = effective isNight parts ! k" "ans = True"
      by (auto simp: bind_eq_Some_conv randInt_def split: if_splits)
    then show ?thesis by simp
  next
    case False
    with p obtain fakeRaw where
      "pickFake (allDirs is3D) (\<lambda>f. f \<in> set (effective isNight parts)) (fakeDraws d) = Some fakeRaw"
      "asked = fakeRaw" "ans = False"
      by (auto simp: bind_eq_Some_conv split: if_splits)
    then show ?thesis using pickFake_Some by fastforce
  qed
  with i show ?thesis unfolding q parts_def by simp
qed

lemma spatialPositions_length: "length (spatialPositions dir n) = n + 1"
  by (induction n) (simp_all add: Let_def split: prod.splits)

lemma availableTypes_cases:
  "availableTypes st is3D =
     (if enableDeictic st
      then (if enableMovement st \<and> \<not> is3D then [''DEICTIC'', ''MOVEMENT''] else [''DEICTIC''])
      else (if enableMovement st \<and> \<not> is3D then [''MOVEMENT''] else [''STANDARD'']))"
  by (simp add: availableTypes_def Let_def)

lemma selectedType_Some:
  assumes "selectedType st is3D draw = Some ty"
  shows "ty \<in> set (availableTypes st is3D)"
  using assms by (auto simp: selectedType_def randInt_def bind_eq_Some_conv split: if_splits)

lemma selectedType_cases:
  assumes "selectedType st is3D draw = Some ty"
  shows "(\<not> enableDeictic st \<and> \<not> (enableMovement st \<and> \<not> is3D) \<longrightarrow> ty = ''STANDARD'') \<and>
     (enableDeictic st \<or> (enableMovement st \<and> \<not> is3D) \<longrightarrow>
        ty \<noteq> ''STANDARD'' \<and>
        (ty = ''DEICTIC'' \<and> enableDeictic st \<or>
         ty = ''MOVEMENT'' \<and> enableMovement st \<and> \<not> is3D))"
  using selectedType_Some [OF assms] by (auto simp: availableTypes_cases split: if_splits)

lemma spatialQuery_Some:
  assumes "spatialQuery st is3D num cm isNight d = Some q"
  shows "selectedType st is3D (typeDraw d) = Some (subMode q) \<and>
     (subMode q = ''DEICTIC'' \<longrightarrow>
        genDeictic st cm isNight (generateSymbols (num + 1) (symbolDraw d))
          (spatialPositions (dirDraw d) num) d = Some q) \<and>
     (subMode q = ''MOVEMENT'' \<longrightarrow>
        genMovement st cm isNight (generateSymbols (num + 1) (symbolDraw d))
          (spatialPositions (dirDraw d) num) d = Some q) \<and>
     (subMode q = ''STANDARD'' \<longrightarrow>
        genStandard st cm isNight is3D (generateSymbols (num + 1) (symbolDraw d))
          (spatialPositions (dirDraw d) num) d = Some q)"
proof -
  from assms obtain ty where ty: "selectedType st is3D (typeDraw d) = Some ty"
    and g: "(if ty = ''DEICTIC''
         then genDeictic st cm isNight (generateSymbols (num + 1) (symbolDraw d))
                (spatialPositions (dirDraw d) num) d
         else if ty = ''MOVEMENT''
         then genMovement st cm isNight (generateSymbols (num + 1) (symbolDraw d))
                (spatialPositions (dirDraw d) num) d
         else genStandard st cm isNight is3D (generateSymbols (num + 1) (symbolDraw d))
                (spatialPositions (dirDraw d) num) d) = Some q"
    by (auto simp: spatialQuery_def Let_def bind_eq_Some_conv split: if_splits)
  from selectedType_Some [OF ty] have c: "ty = ''DEICTIC'' \<or> ty = ''MOVEMENT'' \<or> ty = ''STANDARD''"
    by (auto simp: availableTypes_cases split: if_splits)
  from c show ?thesis
  proof (elim disjE)
    assume t: "ty = ''DEICTIC''"
    with g have "genDeictic st cm isNight (generateSymbols (num + 1) (symbolDraw d))
                (spatialPositions (dirDraw d) num) d = Some q" by simp
    with genDeictic_Some [OF this] ty t show ?thesis by auto
  next
    assume t: "ty = ''MOVEMENT''"
    with g have "genMovement st cm isNight (generateSymbols (num + 1) (symbolDraw d))
                (spatialPositions (dirDraw d) num) d = Some q" by simp
    with genMovement_Some [OF this] ty t show ?thesis by auto
  next
    assume t: "ty = ''STANDARD''"
    with g have "genStandard st cm isNight is3D (generateSymbols (num + 1) (symbolDraw d))
                (spatialPositions (dirDraw d) num) d = Some q" by simp
    with genStandard_Some [OF this] ty t show ?thesis by auto
  qed
qed




subsection \<open>Night mode\<close>





lemma genSpatial_Some:
  assumes "generateLogic st mode num cm isNight d = Some r"
    and "mode = SPATIAL_2D \<or> mode = SPATIAL_3D"
  shows "\<exists>q. spatialQuery st (mode = SPATIAL_3D) num cm isNight d = Some q \<and>
     question r = queryText q \<and> answer r = queryAnswer q \<and>
     modifiers r = (if subMode q = ''STANDARD'' then [] else [subMode q])"
proof -
  from generateLogic_Some [OF assms(1)] obtain raw where
    raw: "generateRaw st mode num cm isNight d = Some raw"
      "question r = newQuestion raw" "answer r = newAnswer raw" "modifiers r = newModifiers raw"
    by auto
  from raw(1) assms(2) have "genSpatial st (mode = SPATIAL_3D) num cm isNight d = Some raw"
    by (auto simp: generateRaw_def)
  then obtain q where q: "spatialQuery st (mode = SPATIAL_3D) num cm isNight d = Some q"
    "newQuestion raw = queryText q" "newAnswer raw = queryAnswer q"
    "newModifiers raw = (if subMode q = ''STANDARD'' then [] else [subMode q])"
    by (auto simp: genSpatial_def bind_eq_Some_conv)
  show ?thesis
    by (rule exI [of _ q]) (simp add: q raw)
qed



subsection \<open>Selection of the spatial sub-mode\<close>

text \<open>
  C7, as the code has it. Movement is offered in 2D only. In a spatial round the sub-mode
  is STANDARD when Deictic is off and Movement is off or the round is 3D; when Deictic
  is on, or Movement is on in a 2D round, the sub-mode is never STANDARD but one of
  DEICTIC (if enabled) and MOVEMENT (if enabled and 2D).
\<close>

theorem C7_submode_selection:
  assumes "generateLogic st mode num cm isNight d = Some r"
    and "mode = SPATIAL_2D \<or> mode = SPATIAL_3D"
  shows "\<exists>q. spatialQuery st (mode = SPATIAL_3D) num cm isNight d = Some q \<and>
     question r = queryText q \<and>
     modifiers r = (if subMode q = ''STANDARD'' then [] else [subMode q]) \<and>
     (\<not> enableDeictic st \<and> \<not> (enableMovement st \<and> mode = SPATIAL_2D) \<longrightarrow>
        subMode q = ''STANDARD'') \<and>
     (enableDeictic st \<or> (enableMovement st \<and> mode = SPATIAL_2D) \<longrightarrow>
        subMode q \<noteq> ''STANDARD'' \<and>
        (subMode q = ''DEICTIC'' \<and> enableDeictic st \<or>
         subMode q = ''MOVEMENT'' \<and> enableMovement st \<and> mode = SPATIAL_2D))"
proof -
  from genSpatial_Some [OF assms] obtain q where
    q: "spatialQuery st (mode = SPATIAL_3D) num cm isNight d = Some q"
      "question r = queryText q"
      "modifiers r = (if subMode q = ''STANDARD'' then [] else [subMode q])"
    by auto
  have m: "(\<not> (mode = SPATIAL_3D)) = (mode = SPATIAL_2D)" using assms(2) by auto
  from spatialQuery_Some [OF q(1)] have
    "selectedType st (mode = SPATIAL_3D) (typeDraw d) = Some (subMode q)" by simp
  from selectedType_cases [OF this] have
    "(\<not> enableDeictic st \<and> \<not> (enableMovement st \<and> mode = SPATIAL_2D) \<longrightarrow>
        subMode q = ''STANDARD'') \<and>
     (enableDeictic st \<or> (enableMovement st \<and> mode = SPATIAL_2D) \<longrightarrow>
        subMode q \<noteq> ''STANDARD'' \<and>
        (subMode q = ''DEICTIC'' \<and> enableDeictic st \<or>
         subMode q = ''MOVEMENT'' \<and> enableMovement st \<and> mode = SPATIAL_2D))"
    unfolding m .
  with q show ?thesis by blast
qed

text \<open>
  The claim C7 says that a round is never STANDARD once a modifier is enabled. A 3D
  round with Movement enabled and Deictic disabled is STANDARD.
\<close>

theorem C7_counterexample:
  "enableMovement (sampleSettings\<lparr>enableMovement := True\<rparr>) \<and>
   map_option subMode
     (spatialQuery (sampleSettings\<lparr>enableMovement := True\<rparr>) True 2 Map.empty False sampleDraws) =
     Some ''STANDARD'' \<and>
   generateLogic (sampleSettings\<lparr>enableMovement := True\<rparr>) SPATIAL_3D 2 Map.empty False sampleDraws =
     Some \<lparr> roundPremises = [''C NORTH B'', ''B NORTH A''],
            question = ''Is C NORTH A?'', answer = True, modifiers = [] \<rparr>"
  by code_simp

theorem C7_submode_selection_witness:
  "\<exists>q. spatialQuery (sampleSettings\<lparr>enableMovement := True\<rparr>) False 2 Map.empty False sampleDraws
          = Some q \<and>
       subMode q = ''MOVEMENT''"
proof -
  have g: "generateLogic (sampleSettings\<lparr>enableMovement := True\<rparr>) SPATIAL_2D 2 Map.empty False
       sampleDraws =
     Some \<lparr> roundPremises = [''C NORTH B'', ''B NORTH A''],
            question = ''START A. FACE EAST. WALK 1. WALK 1. <br/><br/> Is B to your FRONT?'',
            answer = True, modifiers = [''MOVEMENT''] \<rparr>"
    by code_simp
  have e: "enableMovement (sampleSettings\<lparr>enableMovement := True\<rparr>)" by simp
  from C7_submode_selection [OF g] e show ?thesis
    by (auto simp: sampleSettings_def)
qed

subsection \<open>The returned premises\<close>



lemma chainPremises_shuffleDraw:
  "chainPremises st mode num cm (d\<lparr>shuffleDraw := p\<rparr>) = chainPremises st mode num cm d"
  by (cases mode) (simp_all add: chainPremises_def Let_def)







subsection \<open>The cipher key\<close>

lemma assignWords_apply:
  "assignWords sw m0 ris k =
     (case map_of (rev ris) k of Some i \<Rightarrow> Some (sw ! (i mod length sw)) | None \<Rightarrow> m0 k)"
proof (induction ris arbitrary: m0)
  case Nil
  show ?case by (simp add: assignWords_def)
next
  case (Cons a ris)
  obtain r i where a: "a = (r, i)" by (cases a)
  have step: "assignWords sw m0 (a # ris) k =
      assignWords sw (m0(r \<mapsto> sw ! (i mod length sw))) ris k"
    by (simp add: assignWords_def a)
  show ?case
    unfolding step Cons.IH [of "m0(r \<mapsto> sw ! (i mod length sw))"]
    by (simp add: a map_add_def split: option.splits)
qed

lemma map_of_rev_distinct:
  "distinct (map fst xs) \<Longrightarrow> map_of (rev xs) = map_of xs"
proof (induction xs)
  case Nil
  show ?case by simp
next
  case (Cons a xs)
  then have ih: "map_of (rev xs) = map_of xs" and nin: "fst a \<notin> fst ` set xs" by auto
  have "map_of xs (fst a) = None" using nin by (simp add: map_of_eq_None_iff)
  then show ?case
    by (auto simp: ih map_add_def fun_eq_iff split: option.splits)
qed

lemma assignWords_zip:
  assumes "distinct rels"
  shows "assignWords sw Map.empty (zip rels [0..<length rels]) k =
     (case map_of (zip rels [0..<length rels]) k of
        Some i \<Rightarrow> Some (sw ! (i mod length sw)) | None \<Rightarrow> None)"
proof -
  have "distinct (map fst (zip rels [0..<length rels]))" using assms by simp
  from map_of_rev_distinct [OF this] show ?thesis by (simp add: assignWords_apply)
qed

lemma assignWords_nth:
  assumes "distinct rels" "i < length rels"
  shows "assignWords sw Map.empty (zip rels [0..<length rels]) (rels ! i) =
     Some (sw ! (i mod length sw))"
  using map_of_zip_nth [of rels "[0..<length rels]" i] assms
  by (simp add: assignWords_zip)

lemma assignWords_dom:
  assumes "distinct rels"
  shows "dom (assignWords sw Map.empty (zip rels [0..<length rels])) = set rels"
proof -
  have "dom (assignWords sw Map.empty (zip rels [0..<length rels])) =
        dom (map_of (zip rels [0..<length rels]))"
    by (auto simp: assignWords_zip [OF assms] dom_def split: option.splits)
  then show ?thesis by simp
qed

lemma relations_facts: "length relations = 20 \<and> distinct relations"
  by (simp add: relations_def)

lemma CIPHER_WORDS_facts: "length CIPHER_WORDS = 24 \<and> distinct CIPHER_WORDS"
  by (simp add: CIPHER_WORDS_def)

lemma shuffleArray_Some:
  assumes "shuffleArray p xs = Some ys"
  shows "isPermutation (length xs) p \<and> length ys = length xs \<and>
     (\<forall>i<length xs. ys ! i = xs ! (p ! i) \<and> p ! i < length xs) \<and> set ys = set xs \<and>
     (distinct xs \<longrightarrow> distinct ys)"
proof -
  from assms have perm: "isPermutation (length xs) p" and ys: "ys = map (\<lambda>i. xs ! i) p"
    by (auto simp: shuffleArray_def split: if_splits)
  from perm have l: "length p = length xs" and dp: "distinct p"
    and r: "\<forall>i\<in>set p. i < length xs"
    by (auto simp: isPermutation_def list_all_iff)
  have n: "\<forall>i<length xs. ys ! i = xs ! (p ! i) \<and> p ! i < length xs"
    using l r by (simp add: ys)
  have s: "set ys = set xs"
    using shuffleArray_mset [OF assms] by (metis set_mset_mset)
  have d: "distinct xs \<longrightarrow> distinct ys"
    using shuffleArray_mset [OF assms] by (metis mset_eq_imp_distinct_iff)
  from perm l n s d show ?thesis by (simp add: ys)
qed

text \<open>
  C9. Every cipher key that \<^verbatim>\<open>generateCipherKey\<close> returns maps each of the 20 relation
  keywords to one token, keyword number \<open>i\<close> to the word at position \<open>i\<close> of the
  shuffled pool; the tokens of different keywords differ, and every token is one of the
  24 distinct words of \<^verbatim>\<open>CIPHER_WORDS\<close>.
\<close>

theorem C9_cipher_key_injective:
  assumes "generateCipherKey p = Some cipherMap"
  shows "length relations = 20 \<and> distinct relations \<and>
     length CIPHER_WORDS = 24 \<and> distinct CIPHER_WORDS \<and>
     isPermutation 24 p \<and>
     dom cipherMap = set relations \<and>
     (\<forall>i<20. cipherMap (relations ! i) = Some (CIPHER_WORDS ! (p ! i))) \<and>
     inj_on cipherMap (set relations) \<and>
     ran cipherMap \<subseteq> set CIPHER_WORDS"
proof -
  from assms obtain sw where sw: "shuffleArray p CIPHER_WORDS = Some sw"
    and m: "cipherMap = assignWords sw Map.empty (zip relations [0..<length relations])"
    by (auto simp: generateCipherKey_def bind_eq_Some_conv)
  note rf = relations_facts and cf = CIPHER_WORDS_facts
  from shuffleArray_Some [OF sw] cf have perm: "isPermutation 24 p"
    and lsw: "length sw = 24" and dsw: "distinct sw" and ssw: "set sw = set CIPHER_WORDS"
    and nsw: "\<forall>i<24. sw ! i = CIPHER_WORDS ! (p ! i)"
    by auto
  have at: "cipherMap (relations ! i) = Some (sw ! i)" if "i < 20" for i
    using assignWords_nth [of relations i sw] rf that lsw by (simp add: m)
  have dom: "dom cipherMap = set relations"
    using assignWords_dom [of relations sw] rf by (simp add: m)
  have nth: "\<forall>i<20. cipherMap (relations ! i) = Some (CIPHER_WORDS ! (p ! i))"
    using at nsw by simp
  have inj: "inj_on cipherMap (set relations)"
  proof (rule inj_onI)
    fix a b
    assume "a \<in> set relations" "b \<in> set relations" and e: "cipherMap a = cipherMap b"
    then obtain i j where i: "i < 20" "a = relations ! i" and j: "j < 20" "b = relations ! j"
      using rf by (metis in_set_conv_nth)
    from e at [OF i(1)] at [OF j(1)] i j have "sw ! i = sw ! j" by simp
    with dsw lsw i(1) j(1) have "i = j" by (simp add: nth_eq_iff_index_eq)
    with i j show "a = b" by simp
  qed
  have ran: "ran cipherMap \<subseteq> set CIPHER_WORDS"
  proof
    fix v
    assume "v \<in> ran cipherMap"
    then obtain k where k: "cipherMap k = Some v" by (auto simp: ran_def)
    then have "k \<in> set relations" using dom by auto
    then obtain i where i: "i < 20" "k = relations ! i" using rf by (metis in_set_conv_nth)
    with k at [OF i(1)] have "v = sw ! i" by simp
    with i(1) lsw have "v \<in> set sw" by simp
    with ssw show "v \<in> set CIPHER_WORDS" by simp
  qed
  from rf cf perm dom nth inj ran show ?thesis by simp
qed

theorem C9_cipher_key_injective_witness:
  "\<exists>cipherMap.
     generateCipherKey [23, 22, 21, 20, 19, 18, 17, 16, 15, 14, 13, 12, 11, 10, 9, 8, 7, 6, 5, 4,
       3, 2, 1, 0] = Some cipherMap \<and>
     inj_on cipherMap (set relations) \<and> ran cipherMap \<subseteq> set CIPHER_WORDS \<and>
     cipherMap ''GREATER'' = Some ''GOZ'' \<and> cipherMap ''TURN'' = Some ''MEC''"
proof -
  have "isPermutation (length CIPHER_WORDS)
     [23, 22, 21, 20, 19, 18, 17, 16, 15, 14, 13, 12, 11, 10, 9, 8, 7, 6, 5, 4, 3, 2, 1, 0]"
    by (simp add: isPermutation_def CIPHER_WORDS_def)
  then obtain cipherMap where
    g: "generateCipherKey [23, 22, 21, 20, 19, 18, 17, 16, 15, 14, 13, 12, 11, 10, 9, 8, 7, 6, 5, 4,
       3, 2, 1, 0] = Some cipherMap"
    by (simp add: generateCipherKey_def shuffleArray_def)
  from C9_cipher_key_injective [OF g] have
    i: "inj_on cipherMap (set relations)" and r: "ran cipherMap \<subseteq> set CIPHER_WORDS"
    and n: "\<forall>i<20. cipherMap (relations ! i) =
       Some (CIPHER_WORDS ! ([23, 22, 21, 20, 19, 18, 17, 16, 15, 14, 13, 12, 11, 10, 9, 8, 7, 6, 5, 4,
       3, 2, 1, 0] ! i))"
    by blast+
  from n have "cipherMap (relations ! 0) = Some (CIPHER_WORDS ! 23)"
    by (metis nth_Cons_0 zero_less_numeral)
  then have a: "cipherMap ''GREATER'' = Some ''GOZ''"
    by (simp add: relations_def CIPHER_WORDS_def)
  from n have "cipherMap (relations ! 19) =
     Some (CIPHER_WORDS ! ([23, 22, 21, 20, 19, 18, 17, 16, 15, 14, 13, 12, 11, 10, 9, 8, 7, 6, 5, 4,
       3, 2, 1, 0] ! 19))"
    by simp
  then have b: "cipherMap ''TURN'' = Some ''MEC''"
    by (simp add: relations_def CIPHER_WORDS_def)
  from g i r a b show ?thesis by blast
qed

subsection \<open>The adaptive depth\<close>

lemma handleAnswer_keeps_autoProgress:
  "autoProgress (settings (handleAnswer s userAnswer expected)) = autoProgress (settings s)"
  by (simp add: handleAnswer_def Let_def)







subsection \<open>The generators return\<close>

lemma redrawDistinct_total:
  "b < cnt \<Longrightarrow> a \<noteq> b \<Longrightarrow> redrawDistinct cnt a (replicate k a @ b # rest) =
     (if a < cnt \<or> k = 0 then Some b else None)"
  by (induction k) auto

lemma getDistinctRandomIndices_total:
  assumes "a < cnt" "b < cnt" "a \<noteq> b"
  shows "getDistinctRandomIndices cnt (a # replicate k a @ b # rest) = Some (a, b)"
  using assms by (simp add: getDistinctRandomIndices_def randInt_def redrawDistinct_total)

lemma generateLogic_total:
  assumes "mode = LINEAR \<or> mode = DISTINCTION \<or> mode = HIERARCHY"
    and "getDistinctRandomIndices (num + 1) (indexDraws d) = Some (idxA, idxB)"
    and "isPermutation num (shuffleDraw d)"
  shows "\<exists>r. generateLogic st mode num cm isNight d = Some r"
  using assms
  by (auto simp: generateLogic_def generateRaw_def genLinear_def genDistinction_def
      genHierarchy_def Let_def shuffleArray_def linearPremises_def distinctionPremises_def
      hierarchyPremises_def split: prod.splits)

lemma generateCipherKey_total:
  "isPermutation 24 p \<Longrightarrow> \<exists>cipherMap. generateCipherKey p = Some cipherMap"
  using CIPHER_WORDS_facts by (simp add: generateCipherKey_def shuffleArray_def)

end
